theory Spec2Isabelle
  imports Complex_Main
begin

section \<open>Data model\<close>

text \<open>
  Sequences are Python strings, modelled as \<open>string\<close> (ASCII characters only).
  Table values are Python numbers (ints and floats); they are modelled as \<open>real\<close>,
  so rounding of floating-point arithmetic is not part of the model.
  A parameter table is a Python dict from string keys to pairs of numbers; it is
  modelled as an association list read through \<open>map_of\<close> (the first binding of a key
  is the dict's binding), so that the empty dict is \<open>[]\<close>.
\<close>

type_synonym thermo = "real \<times> real"

type_synonym table = "(string \<times> thermo) list"

text \<open>
  The exceptions the code raises. The \<open>ValueError\<close> messages are kept apart by a
  constructor each; the two messages that quote a key carry that key.
\<close>

datatype message =
    NnTableRequired
  | CSeqRequired
  | InvalidCalcType
  | NoAlignment
  | NoDataFound string
  | MissingData string

datatype error = KeyError string | IndexError | ValueError message

definition bind :: "error + 'a \<Rightarrow> ('a \<Rightarrow> error + 'b) \<Rightarrow> error + 'b" where
  "bind m f = (case m of Inl e \<Rightarrow> Inl e | Inr v \<Rightarrow> f v)"

text \<open>\<open>t[k]\<close>: raises \<open>KeyError\<close> when the key is absent.\<close>

definition lookup :: "table \<Rightarrow> string \<Rightarrow> error + thermo" where
  "lookup t k = (case map_of t k of None \<Rightarrow> Inl (KeyError k) | Some v \<Rightarrow> Inr v)"

text \<open>\<open>t.get(k, d)\<close>.\<close>

definition get_default :: "table \<Rightarrow> string \<Rightarrow> thermo \<Rightarrow> thermo" where
  "get_default t k d = (case map_of t k of None \<Rightarrow> d | Some v \<Rightarrow> v)"

text \<open>\<open>k in t\<close>.\<close>

definition has_key :: "table \<Rightarrow> string \<Rightarrow> bool" where
  "has_key t k = (map_of t k \<noteq> None)"

text \<open>Truth value of an optional table argument: \<open>None\<close> and \<open>{}\<close> are false.\<close>

fun truthy_table :: "table option \<Rightarrow> bool" where
  "truthy_table None = False"
| "truthy_table (Some []) = False"
| "truthy_table (Some (x # xs)) = True"

text \<open>Truth value of an optional string argument: \<open>None\<close> and \<open>""\<close> are false.\<close>

fun truthy_str :: "string option \<Rightarrow> bool" where
  "truthy_str None = False"
| "truthy_str (Some []) = False"
| "truthy_str (Some (x # xs)) = True"

subsection \<open>String operations\<close>

text \<open>\<open>str.upper()\<close> on ASCII letters; every other character is unchanged.\<close>

definition upper_char :: "char \<Rightarrow> char" where
  "upper_char c =
     (case map_of (zip ''abcdefghijklmnopqrstuvwxyz'' ''ABCDEFGHIJKLMNOPQRSTUVWXYZ'') c of
        None \<Rightarrow> c | Some u \<Rightarrow> u)"

definition upper :: "string \<Rightarrow> string" where
  "upper s = map upper_char s"

text \<open>
  \<open>str(Seq(s).complement())\<close> of Biopython, a library outside the repository: a
  byte translation by the IUPAC DNA complement table extended with \<open>U \<mapsto> A\<close>, in both
  cases; a character outside the table is unchanged. No reversal takes place.
\<close>

definition complement_base :: "char \<Rightarrow> char" where
  "complement_base c =
     (case map_of (zip ''ACGTMRWSYKVHDBXNUacgtmrwsykvhdbxnu''
                       ''TGCAKYWSRMBDHVXNAtgcakywsrmbdhvxna'') c of
        None \<Rightarrow> c | Some d \<Rightarrow> d)"

definition complement :: "string \<Rightarrow> string" where
  "complement s = map complement_base s"

text \<open>\<open>s.startswith(p)\<close> and \<open>s.endswith(p)\<close>.\<close>

definition startswith :: "string \<Rightarrow> string \<Rightarrow> bool" where
  "startswith s p = (take (length p) s = p)"

definition endswith :: "string \<Rightarrow> string \<Rightarrow> bool" where
  "endswith s p = (length p \<le> length s \<and> drop (length s - length p) s = p)"

text \<open>\<open>s.count(c)\<close> for a one-character pattern.\<close>

definition count_char :: "string \<Rightarrow> char \<Rightarrow> nat" where
  "count_char s c = length (filter (\<lambda>x. x = c) s)"

section \<open>Alignment resolver\<close>

text \<open>
  The first loop of \<open>determine_shift\<close> over the shifts still to try: \<open>continue\<close> on
  a non-positive overlap, \<open>return shift\<close> on the first match.
\<close>

fun scan_right :: "string \<Rightarrow> string \<Rightarrow> nat list \<Rightarrow> nat option" where
  "scan_right seq c_seq_comp [] = None"
| "scan_right seq c_seq_comp (shift # rest) =
     (let overlap_len = min (int (length seq)) (int (length c_seq_comp) - int shift) in
      if overlap_len \<le> 0 then scan_right seq c_seq_comp rest
      else if take (nat overlap_len) seq = take (nat overlap_len) (drop shift c_seq_comp)
           then Some shift
      else scan_right seq c_seq_comp rest)"

text \<open>The second loop: the primary strand shifted left.\<close>

fun scan_left :: "string \<Rightarrow> string \<Rightarrow> nat list \<Rightarrow> nat option" where
  "scan_left seq c_seq_comp [] = None"
| "scan_left seq c_seq_comp (shift # rest) =
     (let overlap_len = min (int (length c_seq_comp)) (int (length seq) - int shift) in
      if overlap_len \<le> 0 then scan_left seq c_seq_comp rest
      else if take (nat overlap_len) (drop shift seq) = take (nat overlap_len) c_seq_comp
           then Some shift
      else scan_left seq c_seq_comp rest)"

definition determine_shift :: "string \<Rightarrow> string \<Rightarrow> error + int" where
  "determine_shift seq0 c_seq0 =
     (let seq = upper seq0;
          c_seq = upper c_seq0;
          c_seq_comp = complement c_seq
      in case scan_right seq c_seq_comp [0 ..< max (length c_seq_comp) (length seq)] of
           Some shift \<Rightarrow> Inr (int shift)
         | None \<Rightarrow>
             (case scan_left seq c_seq_comp [1 ..< length seq] of
                Some shift \<Rightarrow> Inr (- int shift)
              | None \<Rightarrow> Inl (ValueError NoAlignment)))"

section \<open>Initiation corrector\<close>

text \<open>
  \<open>delta_h += t[k][0]; delta_s += t[k][1]\<close>: one table entry added to the running
  pair, with the \<open>KeyError\<close> of an absent key.
\<close>

definition add_entry :: "table \<Rightarrow> string \<Rightarrow> thermo \<Rightarrow> error + thermo" where
  "add_entry t k acc = bind (lookup t k) (\<lambda>v. Inr (fst acc + fst v, snd acc + snd v))"

text \<open>\<open>seq[0] + seq[-1]\<close>: raises \<open>IndexError\<close> on the empty string.\<close>

definition terminal_ends :: "string \<Rightarrow> error + string" where
  "terminal_ends seq = (case seq of [] \<Rightarrow> Inl IndexError | x # xs \<Rightarrow> Inr [hd seq, last seq])"

text \<open>
  The argument \<open>c_seq\<close> is optional (default \<open>None\<close>); every caller in the
  repository leaves it out.
\<close>

definition initialize_thermodynamics :: "table \<Rightarrow> string \<Rightarrow> string option \<Rightarrow> error + thermo" where
  "initialize_thermodynamics nn_table seq c_seq_arg =
     (let c_seq = (if truthy_str c_seq_arg then the c_seq_arg else complement seq) in
      bind (lookup nn_table ''init'') (\<lambda>d0.
      bind (if count_char seq CHR ''G'' + count_char seq CHR ''C'' = 0
            then add_entry nn_table ''init_allA/T'' d0
            else add_entry nn_table ''init_oneG/C'' d0) (\<lambda>d1.
      bind (if startswith seq ''T'' then add_entry nn_table ''init_5T/A'' d1 else Inr d1) (\<lambda>d2.
      bind (if endswith seq ''A'' then add_entry nn_table ''init_5T/A'' d2 else Inr d2) (\<lambda>d3.
      bind (terminal_ends seq) (\<lambda>ends.
      let AT = count_char ends CHR ''A'' + count_char ends CHR ''T'';
          GC = count_char ends CHR ''G'' + count_char ends CHR ''C''
      in
      bind (lookup nn_table ''init_A/T'') (\<lambda>t_at.
      bind (lookup nn_table ''init_G/C'') (\<lambda>t_gc.
      let d4 = (fst d3 + (fst t_at * real AT + fst t_gc * real GC),
                snd d3 + (snd t_at * real AT + snd t_gc * real GC))
      in if seq = rev c_seq then add_entry nn_table ''sym'' d4 else Inr d4))))))))"

section \<open>Stacking accumulator and mode variants\<close>

text \<open>\<open>seq[i:i+2] + '/' + c_seq[i:i+2]\<close>.\<close>

definition neighbors_at :: "string \<Rightarrow> string \<Rightarrow> nat \<Rightarrow> string" where
  "neighbors_at seq c_seq i = take 2 (drop i seq) @ ''/'' @ take 2 (drop i c_seq)"

text \<open>\<open>t.get(k, t.get(k[::-1], (0, 0)))\<close>.\<close>

definition get_either :: "table \<Rightarrow> string \<Rightarrow> thermo" where
  "get_either t k = get_default t k (get_default t (rev k) (0, 0))"

text \<open>
  The stacking loop of \<open>calculate_matching\<close> and of \<open>calculate_terminal_mismatch\<close>,
  over the positions still to visit.
\<close>

fun nn_loop :: "table \<Rightarrow> string \<Rightarrow> string \<Rightarrow> nat list \<Rightarrow> thermo \<Rightarrow> thermo" where
  "nn_loop nn_table seq c_seq [] acc = acc"
| "nn_loop nn_table seq c_seq (i # rest) acc =
     (let neighbors = neighbors_at seq c_seq i;
          d = get_either nn_table neighbors
      in nn_loop nn_table seq c_seq rest (fst acc + fst d, snd acc + snd d))"

definition calculate_matching :: "string \<Rightarrow> string \<Rightarrow> table \<Rightarrow> error + thermo" where
  "calculate_matching seq c_seq nn_table =
     bind (initialize_thermodynamics nn_table seq None) (\<lambda>d0.
     Inr (nn_loop nn_table seq c_seq [0 ..< length seq - 1] d0))"

text \<open>The \<open>if\<close>/\<open>elif\<close> chain of \<open>calculate_internal_mismatch\<close> for one key.\<close>

definition imm_resolve :: "table \<Rightarrow> table \<Rightarrow> string \<Rightarrow> error + thermo" where
  "imm_resolve nn_table imm_table neighbors =
     (if has_key imm_table neighbors then lookup imm_table neighbors
      else if has_key imm_table (rev neighbors) then lookup imm_table (rev neighbors)
      else if has_key nn_table neighbors then lookup nn_table neighbors
      else if has_key nn_table (rev neighbors) then lookup nn_table (rev neighbors)
      else Inl (ValueError (NoDataFound neighbors)))"

fun imm_loop :: "table \<Rightarrow> table \<Rightarrow> string \<Rightarrow> string \<Rightarrow> nat list \<Rightarrow> thermo \<Rightarrow> error + thermo" where
  "imm_loop nn_table imm_table seq c_seq [] acc = Inr acc"
| "imm_loop nn_table imm_table seq c_seq (i # rest) acc =
     (case imm_resolve nn_table imm_table (neighbors_at seq c_seq i) of
        Inl e \<Rightarrow> Inl e
      | Inr d \<Rightarrow> imm_loop nn_table imm_table seq c_seq rest (fst acc + fst d, snd acc + snd d))"

definition calculate_internal_mismatch :: "string \<Rightarrow> string \<Rightarrow> table \<Rightarrow> table \<Rightarrow> error + thermo" where
  "calculate_internal_mismatch seq c_seq nn_table imm_table =
     bind (initialize_thermodynamics nn_table seq None) (\<lambda>d0.
     imm_loop nn_table imm_table seq c_seq [0 ..< length seq - 1] d0)"

definition calculate_terminal_mismatch :: "string \<Rightarrow> string \<Rightarrow> table \<Rightarrow> table \<Rightarrow> error + thermo" where
  "calculate_terminal_mismatch seq c_seq nn_table tmm_table =
     bind (initialize_thermodynamics nn_table seq None) (\<lambda>d0.
     let term5 = take 2 seq @ ''/'' @ take 2 c_seq;
         t5 = get_either tmm_table term5;
         d1 = (fst d0 + fst t5, snd d0 + snd t5);
         term3 = drop (length seq - 2) seq @ ''/'' @ drop (length c_seq - 2) c_seq;
         t3 = get_either tmm_table term3;
         d2 = (fst d1 + fst t3, snd d1 + snd t3)
     in Inr (nn_loop nn_table seq c_seq [0 ..< length seq - 1] d2))"

section \<open>Dangling ends\<close>

text \<open>Step 3: the shift as leading dots, then trailing dots up to equal length.\<close>

definition de_align :: "int \<Rightarrow> string \<Rightarrow> string \<Rightarrow> string \<times> string" where
  "de_align shift seq c_seq =
     (let tmp_seq = (if shift > 0 then replicate (nat shift) CHR ''.'' @ seq else seq);
          tmp_cseq = (if shift > 0 then c_seq
                      else if shift < 0 then replicate (nat \<bar>shift\<bar>) CHR ''.'' @ c_seq
                      else c_seq)
      in if length tmp_seq > length tmp_cseq
           then (tmp_seq, tmp_cseq @ replicate (length tmp_seq - length tmp_cseq) CHR ''.'')
         else if length tmp_cseq > length tmp_seq
           then (tmp_seq @ replicate (length tmp_cseq - length tmp_seq) CHR ''.'', tmp_cseq)
         else (tmp_seq, tmp_cseq))"

text \<open>The keys of the two dangling-end corrections.\<close>

definition left_de :: "string \<Rightarrow> string \<Rightarrow> string" where
  "left_de tmp_seq tmp_cseq = take 2 tmp_seq @ ''/'' @ take 2 tmp_cseq"

definition right_de :: "string \<Rightarrow> string \<Rightarrow> string" where
  "right_de tmp_seq tmp_cseq =
     rev (drop (length tmp_cseq - 2) tmp_cseq) @ ''/'' @ rev (drop (length tmp_seq - 2) tmp_seq)"

text \<open>
  Step 4 at the 5' end and at the 3' end: the state is the two padded strands and
  the running pair. The table is read at the key only after the membership test, so
  the default of \<open>get_default\<close> is never used. The variable \<open>which_end\<close> of the
  source is never read and is left out.
\<close>

definition de_left :: "table \<Rightarrow> string \<times> string \<times> thermo \<Rightarrow> string \<times> string \<times> thermo" where
  "de_left de_table st =
     (case st of (tmp_seq, tmp_cseq, acc) \<Rightarrow>
        if startswith tmp_seq ''.'' \<or> startswith tmp_cseq ''.''
        then (drop 1 tmp_seq, drop 1 tmp_cseq,
              (if has_key de_table (left_de tmp_seq tmp_cseq)
               then (let d = get_default de_table (left_de tmp_seq tmp_cseq) (0, 0)
                     in (fst acc + fst d, snd acc + snd d))
               else acc))
        else st)"

definition de_right :: "table \<Rightarrow> string \<times> string \<times> thermo \<Rightarrow> string \<times> string \<times> thermo" where
  "de_right de_table st =
     (case st of (tmp_seq, tmp_cseq, acc) \<Rightarrow>
        if endswith tmp_seq ''.'' \<or> endswith tmp_cseq ''.''
        then (butlast tmp_seq, butlast tmp_cseq,
              (if has_key de_table (right_de tmp_seq tmp_cseq)
               then (let d = get_default de_table (right_de tmp_seq tmp_cseq) (0, 0)
                     in (fst acc + fst d, snd acc + snd d))
               else acc))
        else st)"

text \<open>The stacking loop over the aligned core, with the strictness policy.\<close>

definition de_resolve :: "table \<Rightarrow> bool \<Rightarrow> string \<Rightarrow> error + thermo" where
  "de_resolve nn_table strict neighbors =
     (if has_key nn_table neighbors then lookup nn_table neighbors
      else if has_key nn_table (rev neighbors) then lookup nn_table (rev neighbors)
      else if strict then Inl (ValueError (MissingData neighbors))
      else Inr (0, 0))"

fun de_loop :: "table \<Rightarrow> bool \<Rightarrow> string \<Rightarrow> string \<Rightarrow> nat list \<Rightarrow> thermo \<Rightarrow> error + thermo" where
  "de_loop nn_table strict tmp_seq tmp_cseq [] acc = Inr acc"
| "de_loop nn_table strict tmp_seq tmp_cseq (i # rest) acc =
     (case de_resolve nn_table strict (neighbors_at tmp_seq tmp_cseq i) of
        Inl e \<Rightarrow> Inl e
      | Inr d \<Rightarrow> de_loop nn_table strict tmp_seq tmp_cseq rest (fst acc + fst d, snd acc + snd d))"

definition calculate_dangling_end :: "string \<Rightarrow> string \<Rightarrow> table \<Rightarrow> table \<Rightarrow> bool \<Rightarrow> error + thermo" where
  "calculate_dangling_end seq c_seq nn_table de_table strict =
     bind (initialize_thermodynamics nn_table seq None) (\<lambda>d0.
     bind (determine_shift seq c_seq) (\<lambda>shift.
     case de_right de_table (de_left de_table (fst (de_align shift seq c_seq),
                                               snd (de_align shift seq c_seq), d0)) of
       (tmp_seq, tmp_cseq, d1) \<Rightarrow>
         de_loop nn_table strict tmp_seq tmp_cseq
           [0 ..< min (length tmp_seq) (length tmp_cseq) - 1] d1))"

section \<open>Duplex thermodynamics engine\<close>

text \<open>
  The keyword arguments of \<open>calculate_duplex_thermodynamics\<close>: an omitted
  \<open>c_seq\<close>, \<open>temperature\<close> or table is \<open>None\<close> here; the signature's default for
  the temperature is \<open>310.15\<close>. (The defaults of \<open>calc_type\<close> and \<open>strict\<close> are
  \<open>"Matching"\<close> and \<open>True\<close>.) The \<open>print\<close> of the generated complement is not
  modelled.
\<close>

definition default_temperature :: real where
  "default_temperature = 310.15"

definition temperature_of :: "real option \<Rightarrow> real" where
  "temperature_of temperature_arg =
     (case temperature_arg of None \<Rightarrow> default_temperature | Some t \<Rightarrow> t)"

definition calculate_duplex_thermodynamics ::
  "string \<Rightarrow> string option \<Rightarrow> real option \<Rightarrow> table option \<Rightarrow> table option \<Rightarrow> table option
     \<Rightarrow> table option \<Rightarrow> table option \<Rightarrow> string \<Rightarrow> bool \<Rightarrow> error + real \<times> real \<times> real" where
  "calculate_duplex_thermodynamics seq0 c_seq0 temperature_arg nn_table imm_table tmm_table
       de_dna_table de_rna_table calc_type strict =
     (let temperature = temperature_of temperature_arg in
      if \<not> truthy_table nn_table then Inl (ValueError NnTableRequired)
      else
        let seq = upper seq0 in
        bind (if calc_type = ''Matching''
              then Inr (if truthy_str c_seq0 then the c_seq0 else complement seq)
              else if \<not> truthy_str c_seq0 then Inl (ValueError CSeqRequired)
              else Inr (the c_seq0)) (\<lambda>c_seq.
        bind (if calc_type = ''Matching''
                then calculate_matching seq c_seq (the nn_table)
              else if calc_type = ''Internal Mismatch'' \<and> truthy_table imm_table
                then calculate_internal_mismatch seq c_seq (the nn_table) (the imm_table)
              else if calc_type = ''Terminal Mismatch'' \<and> truthy_table tmm_table
                then calculate_terminal_mismatch seq c_seq (the nn_table) (the tmm_table)
              else if calc_type = ''Dangling-End DNA'' \<and> truthy_table de_dna_table
                then calculate_dangling_end seq c_seq (the nn_table) (the de_dna_table) strict
              else if calc_type = ''Dangling-End RNA'' \<and> truthy_table de_rna_table
                then calculate_dangling_end seq c_seq (the nn_table) (the de_rna_table) strict
              else Inl (ValueError InvalidCalcType)) (\<lambda>d.
        Inr (fst d, snd d, fst d - temperature * (snd d / 1000)))))"

subsection \<open>The table defined in the notebook\<close>

definition DNA_NN5 :: table where
  "DNA_NN5 =
     [(''init'', (0, 0)), (''init_A/T'', (0, 0)), (''init_G/C'', (0, 0)),
      (''init_oneG/C'', (0, - 5.9)), (''init_allA/T'', (0, - 9.0)), (''init_5T/A'', (0.4, 0)),
      (''sym'', (0, - 1.4)),
      (''AA/TT'', (- 8.4, - 23.6)), (''AT/TA'', (- 6.5, - 18.8)), (''TA/AT'', (- 6.3, - 18.5)),
      (''CA/GT'', (- 7.4, - 19.3)), (''GT/CA'', (- 8.6, - 23.0)), (''CT/GA'', (- 6.1, - 16.1)),
      (''GA/CT'', (- 7.7, - 20.3)), (''CG/GC'', (- 10.1, - 25.5)), (''GC/CG'', (- 11.1, - 28.4)),
      (''GG/CC'', (- 6.7, - 15.6))]"

subsection \<open>Vocabulary of the properties\<close>

text \<open>The named entries of a base table that the initiation corrector may read.\<close>

definition named_entries :: "string list" where
  "named_entries =
     [''init'', ''init_allA/T'', ''init_oneG/C'', ''init_5T/A'', ''init_A/T'', ''init_G/C'', ''sym'']"

definition complete_table :: "table \<Rightarrow> bool" where
  "complete_table t = list_all (has_key t) named_entries"

text \<open>
  The registration conditions in the words of the specification. At a non-negative
  shift \<open>s\<close> the overlap has length \<open>min(len(seq), len(comp) - s)\<close>; the strands
  register there when that length is positive (\<open>s\<close> lies inside \<open>comp\<close> and \<open>seq\<close> is
  not empty) and the prefix of \<open>seq\<close> of that length equals the substring of \<open>comp\<close>
  starting at \<open>s\<close>. At a negative shift \<open>-s\<close> the overlap has length
  \<open>min(len(comp), len(seq) - s)\<close> and the substring of \<open>seq\<close> starting at \<open>s\<close> is
  compared with the prefix of \<open>comp\<close>.
\<close>

definition registers_right :: "string \<Rightarrow> string \<Rightarrow> nat \<Rightarrow> bool" where
  "registers_right seq c_comp s =
     (s < length c_comp \<and> seq \<noteq> [] \<and>
      take (min (length seq) (length c_comp - s)) seq
        = take (min (length seq) (length c_comp - s)) (drop s c_comp))"

definition registers_left :: "string \<Rightarrow> string \<Rightarrow> nat \<Rightarrow> bool" where
  "registers_left seq c_comp s =
     (s < length seq \<and> c_comp \<noteq> [] \<and>
      take (min (length c_comp) (length seq - s)) (drop s seq)
        = take (min (length c_comp) (length seq - s)) c_comp)"

text \<open>
  The resolution order of Internal Mismatch mode in the words of the specification:
  mismatch table direct, mismatch table reversed, base table direct, base table
  reversed; \<open>None\<close> when the key is absent from all four.
\<close>

definition four_lookups :: "table \<Rightarrow> table \<Rightarrow> string \<Rightarrow> thermo option" where
  "four_lookups nn_table imm_table k =
     (case map_of imm_table k of Some v \<Rightarrow> Some v | None \<Rightarrow>
      (case map_of imm_table (rev k) of Some v \<Rightarrow> Some v | None \<Rightarrow>
       (case map_of nn_table k of Some v \<Rightarrow> Some v | None \<Rightarrow> map_of nn_table (rev k))))"

text \<open>
  How many of the two conditions of the 5'-T / 3'-A penalty a strand meets: one for
  beginning with T, one more for ending with A.
\<close>

definition penalty_count :: "string \<Rightarrow> nat" where
  "penalty_count seq =
     (if startswith seq ''T'' then 1 else 0) + (if endswith seq ''A'' then 1 else 0)"

text \<open>
  The complementary strand the initiation corrector compares with: the argument when
  one is given, the complement of the primary strand otherwise.
\<close>

definition effective_c_seq :: "string \<Rightarrow> string option \<Rightarrow> string" where
  "effective_c_seq seq c_seq_arg =
     (case c_seq_arg of None \<Rightarrow> complement seq
      | Some c \<Rightarrow> if c = [] then complement seq else c)"

text \<open>A strand that is its own reverse complement.\<close>

definition self_complementary :: "string \<Rightarrow> bool" where
  "self_complementary seq = (seq = rev (complement seq))"

text \<open>
  A table treats a key as undirected when the key and its reversal, where both are
  present, carry the same value.
\<close>

definition orientation_consistent :: "table \<Rightarrow> string \<Rightarrow> bool" where
  "orientation_consistent t k =
     (map_of t k \<noteq> None \<and> map_of t (rev k) \<noteq> None \<longrightarrow> map_of t k = map_of t (rev k))"

text \<open>
  The keys that \<open>calculate_dangling_end\<close> builds for the dangling-end table once the
  shift is known: the key of the 5' end when a padded strand begins with a dot, and
  the key of the 3' end when, after that position has been consumed, a padded strand
  ends with a dot.
\<close>

definition de_keys :: "int \<Rightarrow> string \<Rightarrow> string \<Rightarrow> string list" where
  "de_keys shift seq c_seq =
     (let x = fst (de_align shift seq c_seq);
          y = snd (de_align shift seq c_seq);
          l = (startswith x ''.'' \<or> startswith y ''.'');
          x1 = (if l then drop 1 x else x);
          y1 = (if l then drop 1 y else y);
          r = (endswith x1 ''.'' \<or> endswith y1 ''.'')
      in (if l then [left_de x y] else []) @ (if r then [right_de x1 y1] else []))"

text \<open>Adding one contribution to the running pair, as every loop of the program does.\<close>

definition add_thermo :: "thermo \<Rightarrow> thermo \<Rightarrow> thermo" where
  "add_thermo acc d = (fst acc + fst d, snd acc + snd d)"

text \<open>
  The terms that the stacking loop of \<open>calculate_matching\<close> adds, in the order in
  which it adds them: one per position \<open>0 \<le> i < len(seq) - 1\<close>.
\<close>

definition stacking_terms :: "table \<Rightarrow> string \<Rightarrow> string \<Rightarrow> thermo list" where
  "stacking_terms t seq c_seq =
     map (\<lambda>i. get_either t (neighbors_at seq c_seq i)) [0 ..< length seq - 1]"

text \<open>
  The aligned core in the words of the specification: the padded strands after one
  position has been consumed at each end that carries a gap marker; and the stacking
  keys of that core, one per adjacent pair of its positions.
\<close>

definition de_core :: "int \<Rightarrow> string \<Rightarrow> string \<Rightarrow> string \<times> string" where
  "de_core shift seq c_seq =
     (let x = fst (de_align shift seq c_seq);
          y = snd (de_align shift seq c_seq);
          l = (startswith x ''.'' \<or> startswith y ''.'');
          x1 = (if l then drop 1 x else x);
          y1 = (if l then drop 1 y else y);
          r = (endswith x1 ''.'' \<or> endswith y1 ''.'')
      in (if r then butlast x1 else x1, if r then butlast y1 else y1))"

definition core_keys :: "int \<Rightarrow> string \<Rightarrow> string \<Rightarrow> string list" where
  "core_keys shift seq c_seq =
     (let x = fst (de_core shift seq c_seq);
          y = snd (de_core shift seq c_seq)
      in map (neighbors_at x y) [0 ..< min (length x) (length y) - 1])"

section \<open>Properties\<close>

subsection \<open>Auxiliary facts\<close>

lemma bind_Inr_iff: "bind m f = Inr y \<longleftrightarrow> (\<exists>v. m = Inr v \<and> f v = Inr y)"
  by (cases m) (simp_all add: bind_def)

lemma bind_Inl: "bind (Inl e) f = Inl e"
  by (simp add: bind_def)

lemma bind_Inr: "bind (Inr v) f = f v"
  by (simp add: bind_def)

lemma lookup_has_key: "has_key t k \<Longrightarrow> \<exists>v. lookup t k = Inr v"
  by (auto simp: has_key_def lookup_def)

lemma add_entry_has_key: "has_key t k \<Longrightarrow> \<exists>v. add_entry t k acc = Inr v"
  by (auto simp: has_key_def lookup_def add_entry_def bind_def)

lemma complete_tableD:
  assumes "complete_table t"
  shows "has_key t ''init''" "has_key t ''init_allA/T''" "has_key t ''init_oneG/C''"
    "has_key t ''init_5T/A''" "has_key t ''init_A/T''" "has_key t ''init_G/C''" "has_key t ''sym''"
  using assms by (simp_all add: complete_table_def named_entries_def)

lemma initialize_returns:
  assumes t: "complete_table nn_table" and ne: "seq \<noteq> []"
  shows "\<exists>d. initialize_thermodynamics nn_table seq c = Inr d"
proof -
  note k = complete_tableD [OF t]
  obtain d0 where d0: "lookup nn_table ''init'' = Inr d0"
    using lookup_has_key [OF k(1)] by blast
  have "\<exists>d1. (if count_char seq CHR ''G'' + count_char seq CHR ''C'' = 0
            then add_entry nn_table ''init_allA/T'' d0
            else add_entry nn_table ''init_oneG/C'' d0) = Inr d1"
    by (metis add_entry_has_key k(2) k(3))
  then obtain d1 where d1: "(if count_char seq CHR ''G'' + count_char seq CHR ''C'' = 0
            then add_entry nn_table ''init_allA/T'' d0
            else add_entry nn_table ''init_oneG/C'' d0) = Inr d1" ..
  have "\<exists>d2. (if startswith seq ''T'' then add_entry nn_table ''init_5T/A'' d1 else Inr d1) = Inr d2"
    by (metis add_entry_has_key k(4))
  then obtain d2 where
    d2: "(if startswith seq ''T'' then add_entry nn_table ''init_5T/A'' d1 else Inr d1) = Inr d2" ..
  have "\<exists>d3. (if endswith seq ''A'' then add_entry nn_table ''init_5T/A'' d2 else Inr d2) = Inr d3"
    by (metis add_entry_has_key k(4))
  then obtain d3 where
    d3: "(if endswith seq ''A'' then add_entry nn_table ''init_5T/A'' d2 else Inr d2) = Inr d3" ..
  obtain ends where e: "terminal_ends seq = Inr ends"
    using ne by (cases seq) (simp_all add: terminal_ends_def)
  obtain a where a: "lookup nn_table ''init_A/T'' = Inr a"
    using lookup_has_key [OF k(5)] by blast
  obtain g where g: "lookup nn_table ''init_G/C'' = Inr g"
    using lookup_has_key [OF k(6)] by blast
  show ?thesis
    unfolding initialize_thermodynamics_def Let_def
    using add_entry_has_key [OF k(7)]
    by (simp only: d0 d1 d2 d3 e a g bind_Inr) auto
qed

lemma upper_char_fix: "\<forall>u \<in> set ''ABCDEFGHIJKLMNOPQRSTUVWXYZ''. upper_char u = u"
  by (simp add: upper_char_def)

lemma upper_char_idem: "upper_char (upper_char c) = upper_char c"
proof (cases "map_of (zip ''abcdefghijklmnopqrstuvwxyz'' ''ABCDEFGHIJKLMNOPQRSTUVWXYZ'') c")
  case None
  then show ?thesis by (simp add: upper_char_def)
next
  case (Some u)
  then have "(c, u) \<in> set (zip ''abcdefghijklmnopqrstuvwxyz'' ''ABCDEFGHIJKLMNOPQRSTUVWXYZ'')"
    by (rule map_of_SomeD)
  then have "u \<in> set ''ABCDEFGHIJKLMNOPQRSTUVWXYZ''"
    by (rule set_zip_rightD)
  then have "upper_char u = u"
    using upper_char_fix by blast
  moreover have "upper_char c = u" using Some by (simp add: upper_char_def)
  ultimately show ?thesis by simp
qed

lemma upper_idem: "upper (upper s) = upper s"
  by (simp add: upper_def upper_char_idem)

lemma overlap_pos:
  "\<not> min (int (length xs)) (int (length ys) - int s) \<le> 0 \<longleftrightarrow> s < length ys \<and> xs \<noteq> []"
  by (cases xs) auto

lemma overlap_nat:
  "s < length ys \<Longrightarrow>
     nat (min (int (length xs)) (int (length ys) - int s)) = min (length xs) (length ys - s)"
  unfolding min_def by (simp split: if_splits) linarith

lemma scan_right_find: "scan_right seq c_comp xs = List.find (registers_right seq c_comp) xs"
proof (induction xs)
  case Nil
  show ?case by simp
next
  case (Cons s xs)
  show ?case
  proof (cases "s < length c_comp \<and> seq \<noteq> []")
    case True
    then have pos: "\<not> min (int (length seq)) (int (length c_comp) - int s) \<le> 0"
      using overlap_pos by blast
    have n: "nat (min (int (length seq)) (int (length c_comp) - int s))
               = min (length seq) (length c_comp - s)"
      using True by (simp only: overlap_nat)
    have r: "registers_right seq c_comp s \<longleftrightarrow>
               take (min (length seq) (length c_comp - s)) seq = take (min (length seq) (length c_comp - s)) (drop s c_comp)"
      using True by (simp add: registers_right_def)
    show ?thesis
      using pos Cons by (simp only: scan_right.simps Let_def n find.simps r if_False)
  next
    case False
    then have "min (int (length seq)) (int (length c_comp) - int s) \<le> 0"
      using overlap_pos by blast
    moreover have "\<not> registers_right seq c_comp s"
      using False by (auto simp: registers_right_def)
    ultimately show ?thesis
      using Cons by (simp only: scan_right.simps Let_def find.simps if_True if_False)
  qed
qed

lemma scan_left_find: "scan_left seq c_comp xs = List.find (registers_left seq c_comp) xs"
proof (induction xs)
  case Nil
  show ?case by simp
next
  case (Cons s xs)
  show ?case
  proof (cases "s < length seq \<and> c_comp \<noteq> []")
    case True
    then have pos: "\<not> min (int (length c_comp)) (int (length seq) - int s) \<le> 0"
      using overlap_pos by blast
    have n: "nat (min (int (length c_comp)) (int (length seq) - int s))
               = min (length c_comp) (length seq - s)"
      using True by (simp only: overlap_nat)
    have r: "registers_left seq c_comp s \<longleftrightarrow>
               take (min (length c_comp) (length seq - s)) (drop s seq) = take (min (length c_comp) (length seq - s)) c_comp"
      using True by (simp add: registers_left_def)
    show ?thesis
      using pos Cons by (simp only: scan_left.simps Let_def n find.simps r if_False)
  next
    case False
    then have "min (int (length c_comp)) (int (length seq) - int s) \<le> 0"
      using overlap_pos by blast
    moreover have "\<not> registers_left seq c_comp s"
      using False by (auto simp: registers_left_def)
    ultimately show ?thesis
      using Cons by (simp only: scan_left.simps Let_def find.simps if_True if_False)
  qed
qed

lemma find_upt_Some:
  "List.find P [a ..< b] = Some k \<longleftrightarrow> a \<le> k \<and> k < b \<and> P k \<and> (\<forall>j. a \<le> j \<and> j < k \<longrightarrow> \<not> P j)"
proof (induction "b - a" arbitrary: a)
  case 0
  then show ?case by auto
next
  case (Suc n)
  then have ab: "a < b" and n: "n = b - Suc a" by auto
  have step: "[a ..< b] = a # [Suc a ..< b]" using ab by (simp add: upt_conv_Cons)
  show ?case
  proof (cases "P a")
    case True
    then show ?thesis using ab by (auto simp: step)
  next
    case False
    have "List.find P [a ..< b] = List.find P [Suc a ..< b]" using False by (simp add: step)
    also have "\<dots> = Some k \<longleftrightarrow> Suc a \<le> k \<and> k < b \<and> P k \<and> (\<forall>j. Suc a \<le> j \<and> j < k \<longrightarrow> \<not> P j)"
      using Suc.hyps(1) [OF n] .
    also have "\<dots> \<longleftrightarrow> a \<le> k \<and> k < b \<and> P k \<and> (\<forall>j. a \<le> j \<and> j < k \<longrightarrow> \<not> P j)"
      using False by (metis Suc_leD Suc_leI le_neq_implies_less)
    finally show ?thesis .
  qed
qed

lemma find_upt_None: "List.find P [a ..< b] = None \<longleftrightarrow> (\<forall>j. a \<le> j \<and> j < b \<longrightarrow> \<not> P j)"
  by (auto simp: find_None_iff)

lemma length_upper [simp]: "length (upper s) = length s"
  by (simp add: upper_def)

lemma length_complement [simp]: "length (complement s) = length s"
  by (simp add: complement_def)

lemma determine_shift_find:
  "determine_shift seq c_seq =
     (case List.find (registers_right (upper seq) (complement (upper c_seq)))
             [0 ..< max (length c_seq) (length seq)] of
        Some k \<Rightarrow> Inr (int k)
      | None \<Rightarrow>
          (case List.find (registers_left (upper seq) (complement (upper c_seq))) [1 ..< length seq] of
             Some k \<Rightarrow> Inr (- int k)
           | None \<Rightarrow> Inl (ValueError NoAlignment)))"
  by (simp add: determine_shift_def Let_def scan_right_find scan_left_find cong: option.case_cong)

lemma determine_shift_upper: "determine_shift (upper seq) c_seq = determine_shift seq c_seq"
  by (simp add: determine_shift_find upper_idem cong: option.case_cong)


lemma bind_Inl_iff: "bind m f = Inl e \<longleftrightarrow> m = Inl e \<or> (\<exists>v. m = Inr v \<and> f v = Inl e)"
  by (cases m) (simp_all add: bind_def)

lemma calculate_dangling_end_no_shift:
  assumes "determine_shift seq c_seq = Inl e"
  shows "\<exists>e'. calculate_dangling_end seq c_seq nn_table de_table strict = Inl e'"
    and "initialize_thermodynamics nn_table seq None = Inr d \<Longrightarrow>
           calculate_dangling_end seq c_seq nn_table de_table strict = Inl e"
proof -
  show "\<exists>e'. calculate_dangling_end seq c_seq nn_table de_table strict = Inl e'"
    by (cases "initialize_thermodynamics nn_table seq None")
       (simp_all add: calculate_dangling_end_def assms bind_Inl bind_Inr)
  show "initialize_thermodynamics nn_table seq None = Inr d \<Longrightarrow>
           calculate_dangling_end seq c_seq nn_table de_table strict = Inl e"
    by (simp add: calculate_dangling_end_def assms bind_Inl bind_Inr)
qed

lemma engine_dangling_end:
  assumes "calc_type = ''Dangling-End DNA'' \<or> calc_type = ''Dangling-End RNA''"
    and "\<And>nn_table de_table. \<exists>e. calculate_dangling_end (upper seq) c_seq nn_table de_table strict = Inl e"
  shows "\<exists>e. calculate_duplex_thermodynamics seq (Some c_seq) T nn imm tmm de_dna de_rna
               calc_type strict = Inl e"
proof -
  have 1: "\<exists>e. bind (calculate_dangling_end (upper seq) c_seq a b strict) f = Inl e" for a b
      and f :: "thermo \<Rightarrow> error + real \<times> real \<times> real"
    using assms(2) [of a b] by (auto simp: bind_Inl)
  have 2: "\<exists>e. bind (Inl x) f = Inl e" for x and f :: "thermo \<Rightarrow> error + real \<times> real \<times> real"
    by (simp add: bind_Inl)
  show ?thesis
    using assms(1) 1 2
    by (cases c_seq) (auto simp add: calculate_duplex_thermodynamics_def Let_def bind_Inl bind_Inr)
qed

text \<open>Unfolding rules for evaluating the model on concrete inputs.\<close>

lemmas eval_defs = calculate_duplex_thermodynamics_def DNA_NN5_def upper_def upper_char_def complement_def complement_base_def
    calculate_matching_def bind_def initialize_thermodynamics_def lookup_def add_entry_def count_char_def startswith_def endswith_def terminal_ends_def
    neighbors_at_def get_either_def get_default_def upt_conv_Cons default_temperature_def temperature_of_def

lemma imm_resolve_four:
  "imm_resolve nn_table imm_table k =
     (case four_lookups nn_table imm_table k of
        Some v \<Rightarrow> Inr v | None \<Rightarrow> Inl (ValueError (NoDataFound k)))"
  by (simp add: imm_resolve_def four_lookups_def has_key_def lookup_def split: option.splits)

lemma imm_loop_Inr:
  "imm_loop nn_table imm_table seq c_seq xs acc = Inr r \<longleftrightarrow>
     (\<forall>i \<in> set xs. four_lookups nn_table imm_table (neighbors_at seq c_seq i) \<noteq> None) \<and>
     r = (fst acc + (\<Sum>i\<leftarrow>xs. fst (the (four_lookups nn_table imm_table (neighbors_at seq c_seq i)))),
          snd acc + (\<Sum>i\<leftarrow>xs. snd (the (four_lookups nn_table imm_table (neighbors_at seq c_seq i)))))"
proof (induction xs arbitrary: acc)
  case Nil
  show ?case by (cases acc) auto
next
  case (Cons i xs)
  show ?case
  proof (cases "four_lookups nn_table imm_table (neighbors_at seq c_seq i)")
    case None
    then show ?thesis by (simp add: imm_resolve_four)
  next
    case (Some v)
    then show ?thesis by (simp add: imm_resolve_four Cons.IH add.assoc)
  qed
qed

lemma imm_loop_fail:
  assumes "\<forall>j \<in> set pre. four_lookups nn_table imm_table (neighbors_at seq c_seq j) \<noteq> None"
    and "four_lookups nn_table imm_table (neighbors_at seq c_seq i) = None"
  shows "imm_loop nn_table imm_table seq c_seq (pre @ i # post) acc
           = Inl (ValueError (NoDataFound (neighbors_at seq c_seq i)))"
  using assms
proof (induction pre arbitrary: acc)
  case Nil
  then show ?case by (simp add: imm_resolve_four)
next
  case (Cons j pre)
  then obtain v where "four_lookups nn_table imm_table (neighbors_at seq c_seq j) = Some v"
    by auto
  with Cons show ?case by (simp add: imm_resolve_four)
qed

lemma upt_split: "i < n \<Longrightarrow> [0 ..< n] = [0 ..< i] @ i # [Suc i ..< n]"
proof -
  assume "i < n"
  then have "[0 ..< i + (n - i)] = [0 ..< i] @ [i ..< i + (n - i)]"
    by (intro upt_add_eq_append) simp
  then show ?thesis using \<open>i < n\<close> by (simp add: upt_conv_Cons)
qed

lemma lookup_Cons: "lookup ((k, v) # t) k' = (if k' = k then Inr v else lookup t k')"
  by (simp add: lookup_def)

lemma add_entry_Cons_other: "k' \<noteq> k \<Longrightarrow> add_entry ((k, v) # t) k' acc = add_entry t k' acc"
  by (simp add: add_entry_def lookup_Cons)

lemma add_entry_Cons_same:
  "add_entry ((k, v) # t) k acc = Inr (fst acc + fst v, snd acc + snd v)"
  by (simp add: add_entry_def lookup_Cons bind_Inr)

lemma add_entry_Some:
  "map_of t k = Some v \<Longrightarrow> add_entry t k acc = Inr (fst acc + fst v, snd acc + snd v)"
  by (simp add: add_entry_def lookup_def bind_Inr)

lemma truthy_str_effective:
  "(if truthy_str c then the c else complement seq) = effective_c_seq seq c"
  by (cases c rule: truthy_str.cases) (simp_all add: effective_c_seq_def)

text \<open>The initiation corrector, one step after the other.\<close>

lemma initialize_Inr_iff:
  "initialize_thermodynamics nn_table seq c = Inr r \<longleftrightarrow>
     (\<exists>d0 d1 d2 d3 ends t_at t_gc.
        lookup nn_table ''init'' = Inr d0 \<and>
        (if count_char seq CHR ''G'' + count_char seq CHR ''C'' = 0
         then add_entry nn_table ''init_allA/T'' d0
         else add_entry nn_table ''init_oneG/C'' d0) = Inr d1 \<and>
        (if startswith seq ''T'' then add_entry nn_table ''init_5T/A'' d1 else Inr d1) = Inr d2 \<and>
        (if endswith seq ''A'' then add_entry nn_table ''init_5T/A'' d2 else Inr d2) = Inr d3 \<and>
        terminal_ends seq = Inr ends \<and>
        lookup nn_table ''init_A/T'' = Inr t_at \<and>
        lookup nn_table ''init_G/C'' = Inr t_gc \<and>
        (if seq = rev (effective_c_seq seq c)
         then add_entry nn_table ''sym''
                (fst d3 + (fst t_at * real (count_char ends CHR ''A'' + count_char ends CHR ''T'')
                   + fst t_gc * real (count_char ends CHR ''G'' + count_char ends CHR ''C'')),
                 snd d3 + (snd t_at * real (count_char ends CHR ''A'' + count_char ends CHR ''T'')
                   + snd t_gc * real (count_char ends CHR ''G'' + count_char ends CHR ''C'')))
         else Inr
                (fst d3 + (fst t_at * real (count_char ends CHR ''A'' + count_char ends CHR ''T'')
                   + fst t_gc * real (count_char ends CHR ''G'' + count_char ends CHR ''C'')),
                 snd d3 + (snd t_at * real (count_char ends CHR ''A'' + count_char ends CHR ''T'')
                   + snd t_gc * real (count_char ends CHR ''G'' + count_char ends CHR ''C'')))) = Inr r)"
  unfolding initialize_thermodynamics_def Let_def truthy_str_effective bind_Inr_iff
  by (simp del: split_paired_Ex)

lemma add_entry_shift:
  "add_entry t k acc = Inr r \<Longrightarrow>
     add_entry t k (fst acc + a, snd acc + b) = Inr (fst r + a, snd r + b)"
  by (auto simp: add_entry_def bind_Inr_iff)

lemma if_add_entry_shift:
  "(if p then add_entry t k X else Inr X) = Inr r \<Longrightarrow>
     (if p then add_entry t k (fst X + a, snd X + b) else Inr (fst X + a, snd X + b))
       = Inr (fst r + a, snd r + b)"
  by (cases p) (simp_all add: add_entry_shift)

lemma initialize_perturb_penalty:
  assumes key: "map_of nn_table ''init_5T/A'' = Some (th, ts)"
    and init: "initialize_thermodynamics nn_table seq c = Inr (h, s)"
  shows "initialize_thermodynamics ((''init_5T/A'', (th + dh, ts + ds)) # nn_table) seq c
           = Inr (h + real (penalty_count seq) * dh, s + real (penalty_count seq) * ds)"
proof -
  let ?nn' = "(''init_5T/A'', (th + dh, ts + ds)) # nn_table"
  let ?b1 = "(if startswith seq ''T'' then 1 else 0) :: real"
  let ?b2 = "(if endswith seq ''A'' then 1 else 0) :: real"
  from init obtain d0 d1 d2 d3 ends t_at t_gc where
    s0: "lookup nn_table ''init'' = Inr d0" and
    s1: "(if count_char seq CHR ''G'' + count_char seq CHR ''C'' = 0
         then add_entry nn_table ''init_allA/T'' d0
         else add_entry nn_table ''init_oneG/C'' d0) = Inr d1" and
    s2: "(if startswith seq ''T'' then add_entry nn_table ''init_5T/A'' d1 else Inr d1) = Inr d2" and
    s3: "(if endswith seq ''A'' then add_entry nn_table ''init_5T/A'' d2 else Inr d2) = Inr d3" and
    s4: "terminal_ends seq = Inr ends" and
    s5: "lookup nn_table ''init_A/T'' = Inr t_at" and
    s6: "lookup nn_table ''init_G/C'' = Inr t_gc" and
    s7: "(if seq = rev (effective_c_seq seq c)
         then add_entry nn_table ''sym''
                (fst d3 + (fst t_at * real (count_char ends CHR ''A'' + count_char ends CHR ''T'')
                   + fst t_gc * real (count_char ends CHR ''G'' + count_char ends CHR ''C'')),
                 snd d3 + (snd t_at * real (count_char ends CHR ''A'' + count_char ends CHR ''T'')
                   + snd t_gc * real (count_char ends CHR ''G'' + count_char ends CHR ''C'')))
         else Inr
                (fst d3 + (fst t_at * real (count_char ends CHR ''A'' + count_char ends CHR ''T'')
                   + fst t_gc * real (count_char ends CHR ''G'' + count_char ends CHR ''C'')),
                 snd d3 + (snd t_at * real (count_char ends CHR ''A'' + count_char ends CHR ''T'')
                   + snd t_gc * real (count_char ends CHR ''G'' + count_char ends CHR ''C'')))) = Inr (h, s)"
    unfolding initialize_Inr_iff by blast
  let ?d2' = "(fst d2 + ?b1 * dh, snd d2 + ?b1 * ds)"
  let ?d3' = "(fst d3 + (?b1 + ?b2) * dh, snd d3 + (?b1 + ?b2) * ds)"
  have l0: "lookup ?nn' ''init'' = Inr d0" using s0 by (simp add: lookup_Cons)
  have l1: "(if count_char seq CHR ''G'' + count_char seq CHR ''C'' = 0
         then add_entry ?nn' ''init_allA/T'' d0
         else add_entry ?nn' ''init_oneG/C'' d0) = Inr d1"
    using s1 by (auto simp add: add_entry_Cons_other split: if_splits)
  have l2: "(if startswith seq ''T'' then add_entry ?nn' ''init_5T/A'' d1 else Inr d1) = Inr ?d2'"
    using s2 by (auto simp: add_entry_Cons_same add_entry_Some [OF key] split: if_splits)
  have l3: "(if endswith seq ''A'' then add_entry ?nn' ''init_5T/A'' ?d2' else Inr ?d2') = Inr ?d3'"
    using s3 by (auto simp: add_entry_Cons_same add_entry_Some [OF key] algebra_simps split: if_splits)
  have l5: "lookup ?nn' ''init_A/T'' = Inr t_at" using s5 by (simp add: lookup_Cons)
  have l6: "lookup ?nn' ''init_G/C'' = Inr t_gc" using s6 by (simp add: lookup_Cons)
  have n: "real (penalty_count seq) = ?b1 + ?b2" by (simp add: penalty_count_def)
  define a where "a = (?b1 + ?b2) * dh"
  define b where "b = (?b1 + ?b2) * ds"
  define X where "X = (fst d3 + (fst t_at * real (count_char ends CHR ''A'' + count_char ends CHR ''T'')
                   + fst t_gc * real (count_char ends CHR ''G'' + count_char ends CHR ''C'')),
                 snd d3 + (snd t_at * real (count_char ends CHR ''A'' + count_char ends CHR ''T'')
                   + snd t_gc * real (count_char ends CHR ''G'' + count_char ends CHR ''C'')))"
  have s7': "(if seq = rev (effective_c_seq seq c) then add_entry nn_table ''sym'' X else Inr X)
               = Inr (h, s)"
    using s7 unfolding X_def .
  have other: "add_entry ?nn' ''sym'' Y = add_entry nn_table ''sym'' Y" for Y
    by (simp add: add_entry_Cons_other)
  have l7: "(if seq = rev (effective_c_seq seq c)
         then add_entry ?nn' ''sym'' (fst X + a, snd X + b)
         else Inr (fst X + a, snd X + b))
       = Inr (h + a, s + b)"
    using if_add_entry_shift [OF s7', of a b] unfolding other by (simp only: fst_conv snd_conv)
  have X': "(fst ?d3' + (fst t_at * real (count_char ends CHR ''A'' + count_char ends CHR ''T'')
                   + fst t_gc * real (count_char ends CHR ''G'' + count_char ends CHR ''C'')),
                 snd ?d3' + (snd t_at * real (count_char ends CHR ''A'' + count_char ends CHR ''T'')
                   + snd t_gc * real (count_char ends CHR ''G'' + count_char ends CHR ''C'')))
            = (fst X + a, snd X + b)"
    unfolding X_def a_def b_def by (simp only: fst_conv snd_conv) (simp only: add.assoc add.commute add.left_commute)
  show ?thesis
    unfolding initialize_Inr_iff n
    apply (rule exI [of _ d0], rule exI [of _ d1], rule exI [of _ ?d2'], rule exI [of _ ?d3'],
           rule exI [of _ ends], rule exI [of _ t_at], rule exI [of _ t_gc])
    apply (intro conjI)
           apply (rule l0)
          apply (rule l1)
         apply (rule l2)
        apply (rule l3)
       apply (rule s4)
      apply (rule l5)
     apply (rule l6)
    apply (simp only: X')
    apply (fold a_def b_def)
    apply (rule l7)
    done
qed

lemma initialize_perturb_sym:
  assumes key: "map_of nn_table ''sym'' = Some (sh, ss)"
    and init: "initialize_thermodynamics nn_table seq c = Inr (h, s)"
  shows "initialize_thermodynamics ((''sym'', (sh + dh, ss + ds)) # nn_table) seq c
           = (if seq = rev (effective_c_seq seq c) then Inr (h + dh, s + ds) else Inr (h, s))"
proof -
  let ?nn' = "(''sym'', (sh + dh, ss + ds)) # nn_table"
  from init obtain d0 d1 d2 d3 ends t_at t_gc where
    s0: "lookup nn_table ''init'' = Inr d0" and
    s1: "(if count_char seq CHR ''G'' + count_char seq CHR ''C'' = 0
         then add_entry nn_table ''init_allA/T'' d0
         else add_entry nn_table ''init_oneG/C'' d0) = Inr d1" and
    s2: "(if startswith seq ''T'' then add_entry nn_table ''init_5T/A'' d1 else Inr d1) = Inr d2" and
    s3: "(if endswith seq ''A'' then add_entry nn_table ''init_5T/A'' d2 else Inr d2) = Inr d3" and
    s4: "terminal_ends seq = Inr ends" and
    s5: "lookup nn_table ''init_A/T'' = Inr t_at" and
    s6: "lookup nn_table ''init_G/C'' = Inr t_gc" and
    s7: "(if seq = rev (effective_c_seq seq c)
         then add_entry nn_table ''sym''
                (fst d3 + (fst t_at * real (count_char ends CHR ''A'' + count_char ends CHR ''T'')
                   + fst t_gc * real (count_char ends CHR ''G'' + count_char ends CHR ''C'')),
                 snd d3 + (snd t_at * real (count_char ends CHR ''A'' + count_char ends CHR ''T'')
                   + snd t_gc * real (count_char ends CHR ''G'' + count_char ends CHR ''C'')))
         else Inr
                (fst d3 + (fst t_at * real (count_char ends CHR ''A'' + count_char ends CHR ''T'')
                   + fst t_gc * real (count_char ends CHR ''G'' + count_char ends CHR ''C'')),
                 snd d3 + (snd t_at * real (count_char ends CHR ''A'' + count_char ends CHR ''T'')
                   + snd t_gc * real (count_char ends CHR ''G'' + count_char ends CHR ''C'')))) = Inr (h, s)"
    unfolding initialize_Inr_iff by blast
  define X where "X = (fst d3 + (fst t_at * real (count_char ends CHR ''A'' + count_char ends CHR ''T'')
                   + fst t_gc * real (count_char ends CHR ''G'' + count_char ends CHR ''C'')),
                 snd d3 + (snd t_at * real (count_char ends CHR ''A'' + count_char ends CHR ''T'')
                   + snd t_gc * real (count_char ends CHR ''G'' + count_char ends CHR ''C'')))"
  define p where "p \<longleftrightarrow> seq = rev (effective_c_seq seq c)"
  have s7': "(if p then add_entry nn_table ''sym'' X else Inr X) = Inr (h, s)"
    using s7 unfolding X_def p_def .
  have l0: "lookup ?nn' ''init'' = Inr d0" using s0 by (simp add: lookup_Cons)
  have l1: "(if count_char seq CHR ''G'' + count_char seq CHR ''C'' = 0
         then add_entry ?nn' ''init_allA/T'' d0
         else add_entry ?nn' ''init_oneG/C'' d0) = Inr d1"
    using s1 by (auto simp add: add_entry_Cons_other split: if_splits)
  have l2: "(if startswith seq ''T'' then add_entry ?nn' ''init_5T/A'' d1 else Inr d1) = Inr d2"
    using s2 by (auto simp add: add_entry_Cons_other split: if_splits)
  have l3: "(if endswith seq ''A'' then add_entry ?nn' ''init_5T/A'' d2 else Inr d2) = Inr d3"
    using s3 by (auto simp add: add_entry_Cons_other split: if_splits)
  have l5: "lookup ?nn' ''init_A/T'' = Inr t_at" using s5 by (simp add: lookup_Cons)
  have l6: "lookup ?nn' ''init_G/C'' = Inr t_gc" using s6 by (simp add: lookup_Cons)
  have l7: "(if p then add_entry ?nn' ''sym'' X else Inr X)
              = (if p then Inr (h + dh, s + ds) else Inr (h, s))"
  proof (cases p)
    case True
    with s7' have "add_entry nn_table ''sym'' X = Inr (h, s)" by simp
    then have "h = fst X + sh \<and> s = snd X + ss"
      by (simp add: add_entry_Some [OF key])
    then show ?thesis using True by (simp add: add_entry_Cons_same)
  next
    case False
    with s7' show ?thesis by simp
  qed
  have "initialize_thermodynamics ?nn' seq c = (if p then add_entry ?nn' ''sym'' X else Inr X)"
    unfolding initialize_thermodynamics_def Let_def truthy_str_effective
    by (simp only: l0 l1 l2 l3 s4 l5 l6 bind_Inr X_def p_def)
  also note l7
  finally show ?thesis unfolding p_def .
qed

lemma initialize_Cons_sym_unused:
  "seq \<noteq> rev (effective_c_seq seq c) \<Longrightarrow>
     initialize_thermodynamics ((''sym'', v) # nn_table) seq c
       = initialize_thermodynamics nn_table seq c"
  unfolding initialize_thermodynamics_def Let_def truthy_str_effective
  by (simp add: lookup_Cons add_entry_Cons_other cong: if_cong)

lemma initialize_Cons_penalty_unused:
  "penalty_count seq = 0 \<Longrightarrow>
     initialize_thermodynamics ((''init_5T/A'', v) # nn_table) seq c
       = initialize_thermodynamics nn_table seq c"
  unfolding initialize_thermodynamics_def Let_def truthy_str_effective
  by (simp add: lookup_Cons add_entry_Cons_other penalty_count_def cong: if_cong split: if_splits)

lemma slash_in_neighbors: "CHR ''/'' \<in> set (neighbors_at seq c_seq i)"
  by (simp add: neighbors_at_def)

lemma map_of_sym_neighbors:
  "map_of ((''sym'', v) # t) (neighbors_at seq c_seq i) = map_of t (neighbors_at seq c_seq i)"
  "map_of ((''sym'', v) # t) (rev (neighbors_at seq c_seq i)) = map_of t (rev (neighbors_at seq c_seq i))"
proof -
  have "CHR ''/'' \<notin> set ''sym''" by simp
  then have "neighbors_at seq c_seq i \<noteq> ''sym''"
    using slash_in_neighbors [of seq c_seq i] by metis
  then show "map_of ((''sym'', v) # t) (neighbors_at seq c_seq i) = map_of t (neighbors_at seq c_seq i)"
    by simp
  have "CHR ''/'' \<in> set (rev (neighbors_at seq c_seq i))"
    using slash_in_neighbors [of seq c_seq i] by simp
  with \<open>CHR ''/'' \<notin> set ''sym''\<close> have "rev (neighbors_at seq c_seq i) \<noteq> ''sym''"
    by metis
  then show "map_of ((''sym'', v) # t) (rev (neighbors_at seq c_seq i))
               = map_of t (rev (neighbors_at seq c_seq i))"
    by simp
qed

lemma get_either_sym:
  "get_either ((''sym'', v) # t) (neighbors_at seq c_seq i) = get_either t (neighbors_at seq c_seq i)"
  unfolding get_either_def get_default_def by (simp only: map_of_sym_neighbors)

lemma imm_resolve_sym:
  "imm_resolve ((''sym'', v) # t) imm (neighbors_at seq c_seq i)
     = imm_resolve t imm (neighbors_at seq c_seq i)"
  unfolding imm_resolve_def has_key_def lookup_def by (simp only: map_of_sym_neighbors)

lemma de_resolve_sym:
  "de_resolve ((''sym'', v) # t) strict (neighbors_at seq c_seq i)
     = de_resolve t strict (neighbors_at seq c_seq i)"
  unfolding de_resolve_def has_key_def lookup_def by (simp only: map_of_sym_neighbors)

lemma nn_loop_sym:
  "nn_loop ((''sym'', v) # t) seq c_seq xs acc = nn_loop t seq c_seq xs acc"
  by (induction xs arbitrary: acc) (simp_all add: get_either_sym)

lemma imm_loop_sym:
  "imm_loop ((''sym'', v) # t) imm seq c_seq xs acc = imm_loop t imm seq c_seq xs acc"
  by (induction xs arbitrary: acc) (simp_all add: imm_resolve_sym cong: sum.case_cong)

lemma de_loop_sym:
  "de_loop ((''sym'', v) # t) strict seq c_seq xs acc = de_loop t strict seq c_seq xs acc"
  by (induction xs arbitrary: acc) (simp_all add: de_resolve_sym cong: sum.case_cong)

lemma nn_loop_sum:
  "nn_loop t seq c_seq xs acc
     = (fst acc + (\<Sum>i\<leftarrow>xs. fst (get_either t (neighbors_at seq c_seq i))),
        snd acc + (\<Sum>i\<leftarrow>xs. snd (get_either t (neighbors_at seq c_seq i))))"
  by (induction xs arbitrary: acc) (simp_all add: add.assoc Let_def)

lemma nn_loop_shift:
  "nn_loop t seq c_seq xs (fst acc + a, snd acc + b)
     = (fst (nn_loop t seq c_seq xs acc) + a, snd (nn_loop t seq c_seq xs acc) + b)"
  by (simp add: nn_loop_sum)

lemma imm_loop_shift:
  "imm_loop t imm seq c_seq xs acc = Inr r \<Longrightarrow>
     imm_loop t imm seq c_seq xs (fst acc + a, snd acc + b) = Inr (fst r + a, snd r + b)"
  by (simp add: imm_loop_Inr)

lemma de_loop_shift:
  "de_loop t strict seq c_seq xs acc = Inr r \<Longrightarrow>
     de_loop t strict seq c_seq xs (fst acc + a, snd acc + b) = Inr (fst r + a, snd r + b)"
proof (induction xs arbitrary: acc)
  case Nil
  then show ?case by auto
next
  case (Cons i xs)
  from Cons.prems obtain d where
    d: "de_resolve t strict (neighbors_at seq c_seq i) = Inr d" and
    rest: "de_loop t strict seq c_seq xs (fst acc + fst d, snd acc + snd d) = Inr r"
    by (auto split: sum.splits)
  have "de_loop t strict seq c_seq (i # xs) (fst acc + a, snd acc + b)
          = de_loop t strict seq c_seq xs
              (fst (fst acc + fst d, snd acc + snd d) + a,
               snd (fst acc + fst d, snd acc + snd d) + b)"
    by (simp add: d add.commute add.left_commute)
  also have "\<dots> = Inr (fst r + a, snd r + b)"
    by (rule Cons.IH [OF rest])
  finally show ?case .
qed

lemma de_left_shift:
  "de_left de (x, y, (fst acc + a, snd acc + b))
     = (fst (de_left de (x, y, acc)), fst (snd (de_left de (x, y, acc))),
        (fst (snd (snd (de_left de (x, y, acc)))) + a,
         snd (snd (snd (de_left de (x, y, acc)))) + b))"
  by (simp add: de_left_def Let_def)

lemma de_right_shift:
  "de_right de (x, y, (fst acc + a, snd acc + b))
     = (fst (de_right de (x, y, acc)), fst (snd (de_right de (x, y, acc))),
        (fst (snd (snd (de_right de (x, y, acc)))) + a,
         snd (snd (snd (de_right de (x, y, acc)))) + b))"
  by (simp add: de_right_def Let_def)

lemma bind_initialize_sym:
  fixes G :: "table \<Rightarrow> thermo \<Rightarrow> error + thermo"
  assumes key: "map_of nn_table ''sym'' = Some (sh, ss)"
    and res: "bind (initialize_thermodynamics nn_table seq None) (G nn_table) = Inr (h, s)"
    and tab: "\<And>d. G ((''sym'', (sh + dh, ss + ds)) # nn_table) d = G nn_table d"
    and shift: "\<And>d r. G nn_table d = Inr r \<Longrightarrow>
                  G nn_table (fst d + dh, snd d + ds) = Inr (fst r + dh, snd r + ds)"
  shows "bind (initialize_thermodynamics ((''sym'', (sh + dh, ss + ds)) # nn_table) seq None)
              (G ((''sym'', (sh + dh, ss + ds)) # nn_table))
           = (if self_complementary seq then Inr (h + dh, s + ds) else Inr (h, s))"
proof -
  from res obtain d where i: "initialize_thermodynamics nn_table seq None = Inr d"
    and g: "G nn_table d = Inr (h, s)"
    by (auto simp: bind_Inr_iff)
  have i': "initialize_thermodynamics nn_table seq None = Inr (fst d, snd d)"
    using i by simp
  have e: "effective_c_seq seq None = complement seq"
    by (simp add: effective_c_seq_def)
  show ?thesis
  proof (cases "self_complementary seq")
    case True
    then have "seq = rev (effective_c_seq seq None)"
      by (simp add: self_complementary_def e)
    with initialize_perturb_sym [OF key i', of dh ds]
    have "initialize_thermodynamics ((''sym'', (sh + dh, ss + ds)) # nn_table) seq None
            = Inr (fst d + dh, snd d + ds)"
      by simp
    then show ?thesis
      using True shift [OF g] by (simp add: bind_Inr tab)
  next
    case False
    then have "seq \<noteq> rev (effective_c_seq seq None)"
      by (simp add: self_complementary_def e)
    with initialize_perturb_sym [OF key i', of dh ds]
    have "initialize_thermodynamics ((''sym'', (sh + dh, ss + ds)) # nn_table) seq None = Inr d"
      by simp
    then show ?thesis
      using False g by (simp add: bind_Inr tab)
  qed
qed

lemma calculate_matching_sym:
  assumes "map_of nn_table ''sym'' = Some (sh, ss)"
    and "calculate_matching seq c_seq nn_table = Inr (h, s)"
  shows "calculate_matching seq c_seq ((''sym'', (sh + dh, ss + ds)) # nn_table)
           = (if self_complementary seq then Inr (h + dh, s + ds) else Inr (h, s))"
  unfolding calculate_matching_def
  by (rule bind_initialize_sym
        [where G = "\<lambda>t d0. Inr (nn_loop t seq c_seq [0 ..< length seq - 1] d0)",
         OF assms(1) assms(2) [unfolded calculate_matching_def]])
     (simp_all add: nn_loop_sym nn_loop_shift)

lemma calculate_internal_mismatch_sym:
  assumes "map_of nn_table ''sym'' = Some (sh, ss)"
    and "calculate_internal_mismatch seq c_seq nn_table imm = Inr (h, s)"
  shows "calculate_internal_mismatch seq c_seq ((''sym'', (sh + dh, ss + ds)) # nn_table) imm
           = (if self_complementary seq then Inr (h + dh, s + ds) else Inr (h, s))"
  unfolding calculate_internal_mismatch_def
  by (rule bind_initialize_sym
        [where G = "\<lambda>t d0. imm_loop t imm seq c_seq [0 ..< length seq - 1] d0",
         OF assms(1) assms(2) [unfolded calculate_internal_mismatch_def]])
     (simp_all add: imm_loop_sym imm_loop_shift)

lemma calculate_terminal_mismatch_sym:
  assumes "map_of nn_table ''sym'' = Some (sh, ss)"
    and "calculate_terminal_mismatch seq c_seq nn_table tmm = Inr (h, s)"
  shows "calculate_terminal_mismatch seq c_seq ((''sym'', (sh + dh, ss + ds)) # nn_table) tmm
           = (if self_complementary seq then Inr (h + dh, s + ds) else Inr (h, s))"
  unfolding calculate_terminal_mismatch_def
  by (rule bind_initialize_sym
        [where G = "\<lambda>t d0.
           let term5 = take 2 seq @ ''/'' @ take 2 c_seq;
               t5 = get_either tmm term5;
               d1 = (fst d0 + fst t5, snd d0 + snd t5);
               term3 = drop (length seq - 2) seq @ ''/'' @ drop (length c_seq - 2) c_seq;
               t3 = get_either tmm term3;
               d2 = (fst d1 + fst t3, snd d1 + snd t3)
           in Inr (nn_loop t seq c_seq [0 ..< length seq - 1] d2)",
         OF assms(1) assms(2) [unfolded calculate_terminal_mismatch_def]])
     (auto simp add: get_either_sym nn_loop_sum Let_def)

lemma calculate_dangling_end_sym:
  assumes "map_of nn_table ''sym'' = Some (sh, ss)"
    and "calculate_dangling_end seq c_seq nn_table de strict = Inr (h, s)"
  shows "calculate_dangling_end seq c_seq ((''sym'', (sh + dh, ss + ds)) # nn_table) de strict
           = (if self_complementary seq then Inr (h + dh, s + ds) else Inr (h, s))"
proof -
  let ?G = "\<lambda>(t::table) d0.
     bind (determine_shift seq c_seq) (\<lambda>shift.
     case de_right de (de_left de (fst (de_align shift seq c_seq),
                                   snd (de_align shift seq c_seq), d0)) of
       (tmp_seq, tmp_cseq, d1) \<Rightarrow>
         de_loop t strict tmp_seq tmp_cseq
           [0 ..< min (length tmp_seq) (length tmp_cseq) - 1] d1)"
  have tab: "?G ((''sym'', (sh + dh, ss + ds)) # nn_table) d = ?G nn_table d" for d
    by (simp add: de_loop_sym)
  have shift: "?G nn_table (fst d + dh, snd d + ds) = Inr (fst r + dh, snd r + ds)"
    if "?G nn_table d = Inr r" for d r
  proof -
    from that obtain k where k: "determine_shift seq c_seq = Inr k"
      and l: "(case de_right de (de_left de (fst (de_align k seq c_seq),
                                   snd (de_align k seq c_seq), d)) of
       (tmp_seq, tmp_cseq, d1) \<Rightarrow>
         de_loop nn_table strict tmp_seq tmp_cseq
           [0 ..< min (length tmp_seq) (length tmp_cseq) - 1] d1) = Inr r"
      by (auto simp: bind_Inr_iff)
    obtain x y d1 where L: "de_left de (fst (de_align k seq c_seq),
                                   snd (de_align k seq c_seq), d) = (x, y, d1)"
      by (metis prod_cases3)
    obtain x' y' d2 where R: "de_right de (x, y, d1) = (x', y', d2)"
      by (metis prod_cases3)
    have L': "de_left de (fst (de_align k seq c_seq), snd (de_align k seq c_seq),
                          (fst d + dh, snd d + ds)) = (x, y, (fst d1 + dh, snd d1 + ds))"
      by (simp add: de_left_shift L)
    have R': "de_right de (x, y, (fst d1 + dh, snd d1 + ds)) = (x', y', (fst d2 + dh, snd d2 + ds))"
      by (simp add: de_right_shift R)
    from l have "de_loop nn_table strict x' y' [0 ..< min (length x') (length y') - 1] d2 = Inr r"
      by (simp add: L R)
    then have "de_loop nn_table strict x' y' [0 ..< min (length x') (length y') - 1]
                 (fst d2 + dh, snd d2 + ds) = Inr (fst r + dh, snd r + ds)"
      by (rule de_loop_shift)
    then show ?thesis by (simp add: k bind_Inr L' R')
  qed
  show ?thesis
    unfolding calculate_dangling_end_def
    by (rule bind_initialize_sym
          [where G = ?G, OF assms(1) assms(2) [unfolded calculate_dangling_end_def] tab shift])
qed

lemma engine_sym:
  assumes key: "map_of nn_table ''sym'' = Some (sh, ss)"
    and res: "calculate_duplex_thermodynamics seq c T (Some nn_table) imm tmm de_dna de_rna
                calc_type strict = Inr (h, s, g)"
  shows "calculate_duplex_thermodynamics seq c T (Some ((''sym'', (sh + dh, ss + ds)) # nn_table))
           imm tmm de_dna de_rna calc_type strict
         = (if self_complementary (upper seq)
            then Inr (h + dh, s + ds, (h + dh) - temperature_of T * ((s + ds) / 1000))
            else Inr (h, s, g))"
proof -
  let ?nn' = "(''sym'', (sh + dh, ss + ds)) # nn_table"
  define cs :: "error + string" where
    "cs = (if calc_type = ''Matching''
           then Inr (if truthy_str c then the c else complement (upper seq))
           else if \<not> truthy_str c then Inl (ValueError CSeqRequired)
           else Inr (the c))"
  define D :: "table \<Rightarrow> string \<Rightarrow> error + thermo" where
    "D t c_seq =
       (if calc_type = ''Matching''
          then calculate_matching (upper seq) c_seq t
        else if calc_type = ''Internal Mismatch'' \<and> truthy_table imm
          then calculate_internal_mismatch (upper seq) c_seq t (the imm)
        else if calc_type = ''Terminal Mismatch'' \<and> truthy_table tmm
          then calculate_terminal_mismatch (upper seq) c_seq t (the tmm)
        else if calc_type = ''Dangling-End DNA'' \<and> truthy_table de_dna
          then calculate_dangling_end (upper seq) c_seq t (the de_dna) strict
        else if calc_type = ''Dangling-End RNA'' \<and> truthy_table de_rna
          then calculate_dangling_end (upper seq) c_seq t (the de_rna) strict
        else Inl (ValueError InvalidCalcType))" for t c_seq
  have eng: "calculate_duplex_thermodynamics seq c T (Some t) imm tmm de_dna de_rna calc_type strict
          = bind cs (\<lambda>c_seq. bind (D t c_seq)
              (\<lambda>d. Inr (fst d, snd d, fst d - temperature_of T * (snd d / 1000))))"
    if "truthy_table (Some t)" for t
    unfolding calculate_duplex_thermodynamics_def Let_def cs_def D_def
    by (simp only: that option.sel not_True_eq_False if_False)
  have tr: "truthy_table (Some nn_table)"
    using res unfolding calculate_duplex_thermodynamics_def Let_def by (auto split: if_splits)
  have tr': "truthy_table (Some ?nn')" by simp
  from res obtain c_seq where c: "cs = Inr c_seq" and d: "D nn_table c_seq = Inr (h, s)"
    and g: "g = h - temperature_of T * (s / 1000)"
    unfolding eng [OF tr] by (auto simp: bind_Inr_iff)
  define R :: "error + thermo" where
    "R = (if self_complementary (upper seq) then Inr (h + dh, s + ds) else Inr (h, s))"
  have m: "calculate_matching (upper seq) c_seq ?nn' = R"
    if "calculate_matching (upper seq) c_seq nn_table = Inr (h, s)"
    unfolding R_def by (rule calculate_matching_sym [OF key that])
  have i: "calculate_internal_mismatch (upper seq) c_seq ?nn' x = R"
    if "calculate_internal_mismatch (upper seq) c_seq nn_table x = Inr (h, s)" for x
    unfolding R_def by (rule calculate_internal_mismatch_sym [OF key that])
  have t: "calculate_terminal_mismatch (upper seq) c_seq ?nn' x = R"
    if "calculate_terminal_mismatch (upper seq) c_seq nn_table x = Inr (h, s)" for x
    unfolding R_def by (rule calculate_terminal_mismatch_sym [OF key that])
  have e: "calculate_dangling_end (upper seq) c_seq ?nn' x strict = R"
    if "calculate_dangling_end (upper seq) c_seq nn_table x strict = Inr (h, s)" for x
    unfolding R_def by (rule calculate_dangling_end_sym [OF key that])
  have "D ?nn' c_seq = R"
    using d m i t e unfolding D_def by (auto split: if_splits)
  then show ?thesis
    unfolding eng [OF tr'] c R_def by (simp add: bind_Inr g)
qed

lemma get_either_cases:
  "get_either t k =
     (case map_of t k of Some v \<Rightarrow> v
      | None \<Rightarrow> (case map_of t (rev k) of Some v \<Rightarrow> v | None \<Rightarrow> (0, 0)))"
  by (simp add: get_either_def get_default_def split: option.splits)

lemma get_either_rev:
  "orientation_consistent t k \<Longrightarrow> get_either t (rev k) = get_either t k"
  by (auto simp: get_either_cases orientation_consistent_def split: option.splits)

lemma take2_drop_rev:
  assumes "i + 2 \<le> length xs"
  shows "take 2 (drop i (rev xs)) = rev (take 2 (drop (length xs - 2 - i) xs))"
proof -
  have "take 2 (drop i (rev xs)) = take 2 (rev (take (length xs - i) xs))"
    by (simp add: drop_rev)
  also have "\<dots> = rev (drop (length xs - i - 2) (take (length xs - i) xs))"
    using assms by (simp add: take_rev)
  also have "drop (length xs - i - 2) (take (length xs - i) xs)
               = take 2 (drop (length xs - i - 2) xs)"
    using assms by (simp add: drop_take)
  also have "length xs - i - 2 = length xs - 2 - i" by simp
  finally show ?thesis .
qed

lemma neighbors_at_rev:
  assumes "length seq = length c_seq" and "i < length seq - 1"
  shows "neighbors_at (rev c_seq) (rev seq) i
           = rev (neighbors_at seq c_seq (length seq - 2 - i))"
proof -
  have "i + 2 \<le> length seq" "i + 2 \<le> length c_seq" using assms by simp_all
  then show ?thesis
    using assms(1) by (simp add: neighbors_at_def take2_drop_rev)
qed

lemma de_left_cong:
  "(startswith x ''.'' \<or> startswith y ''.'' \<longrightarrow>
      map_of de (left_de x y) = map_of de' (left_de x y)) \<Longrightarrow>
   de_left de (x, y, d) = de_left de' (x, y, d)"
  by (simp add: de_left_def has_key_def get_default_def)

lemma de_right_cong:
  "(endswith x ''.'' \<or> endswith y ''.'' \<longrightarrow>
      map_of de (right_de x y) = map_of de' (right_de x y)) \<Longrightarrow>
   de_right de (x, y, d) = de_right de' (x, y, d)"
  by (simp add: de_right_def has_key_def get_default_def)

lemma de_left_strands:
  "fst (de_left de (x, y, d)) = (if startswith x ''.'' \<or> startswith y ''.'' then drop 1 x else x)"
  "fst (snd (de_left de (x, y, d)))
     = (if startswith x ''.'' \<or> startswith y ''.'' then drop 1 y else y)"
  by (simp_all add: de_left_def)

lemma dangling_end_table_cong:
  assumes k: "determine_shift seq c_seq = Inr k"
    and eq: "\<forall>key \<in> set (de_keys k seq c_seq). map_of de key = map_of de' key"
  shows "calculate_dangling_end seq c_seq nn_table de strict
           = calculate_dangling_end seq c_seq nn_table de' strict"
proof -
  let ?x = "fst (de_align k seq c_seq)" and ?y = "snd (de_align k seq c_seq)"
  let ?l = "startswith ?x ''.'' \<or> startswith ?y ''.''"
  let ?x1 = "if ?l then drop 1 ?x else ?x" and ?y1 = "if ?l then drop 1 ?y else ?y"
  let ?r = "endswith ?x1 ''.'' \<or> endswith ?y1 ''.''"
  have L: "?l \<longrightarrow> map_of de (left_de ?x ?y) = map_of de' (left_de ?x ?y)"
    using eq by (simp add: de_keys_def Let_def)
  have R: "?r \<longrightarrow> map_of de (right_de ?x1 ?y1) = map_of de' (right_de ?x1 ?y1)"
    using eq by (simp add: de_keys_def Let_def)
  have step: "de_right de (de_left de (?x, ?y, d)) = de_right de' (de_left de' (?x, ?y, d))" for d
  proof -
    define d1 where "d1 = snd (snd (de_left de (?x, ?y, d)))"
    have l1: "de_left de (?x, ?y, d) = (?x1, ?y1, d1)"
      unfolding d1_def using de_left_strands [of de ?x ?y d]
      by (cases "de_left de (?x, ?y, d)") simp
    have "de_left de' (?x, ?y, d) = (?x1, ?y1, d1)"
      using de_left_cong [OF L, of d] l1 by simp
    moreover have "de_right de (?x1, ?y1, d1) = de_right de' (?x1, ?y1, d1)"
      using R by (rule de_right_cong)
    ultimately show ?thesis by (simp only: l1)
  qed
  show ?thesis
    unfolding calculate_dangling_end_def
    by (cases "initialize_thermodynamics nn_table seq None") (simp_all add: bind_Inl bind_Inr k step)
qed

lemma de_resolve_lenient: "\<exists>d. de_resolve nn_table False key = Inr d"
  unfolding de_resolve_def has_key_def lookup_def
  by (cases "map_of nn_table key"; cases "map_of nn_table (rev key)") simp_all

lemma de_loop_lenient: "\<exists>r. de_loop nn_table False x y xs acc = Inr r"
proof (induction xs arbitrary: acc)
  case Nil
  show ?case by simp
next
  case (Cons i xs)
  obtain d where "de_resolve nn_table False (neighbors_at x y i) = Inr d"
    using de_resolve_lenient by blast
  then show ?case using Cons.IH by simp
qed

lemma de_loop_strict_Inr:
  "de_loop nn_table True x y xs acc = Inr r \<Longrightarrow> de_loop nn_table False x y xs acc = Inr r"
proof (induction xs arbitrary: acc)
  case Nil
  then show ?case by simp
next
  case (Cons i xs)
  from Cons.prems obtain d where
    d: "de_resolve nn_table True (neighbors_at x y i) = Inr d" and
    rest: "de_loop nn_table True x y xs (fst acc + fst d, snd acc + snd d) = Inr r"
    by (auto split: sum.splits)
  from d have "de_resolve nn_table False (neighbors_at x y i) = Inr d"
    by (auto simp: de_resolve_def split: if_splits)
  then show ?case using Cons.IH [OF rest] by simp
qed

lemma de_loop_strict_Inl:
  "de_loop nn_table True x y xs acc = Inl e \<Longrightarrow>
     \<exists>key. e = ValueError (MissingData key) \<and> \<not> has_key nn_table key \<and>
           \<not> has_key nn_table (rev key)"
proof (induction xs arbitrary: acc)
  case Nil
  then show ?case by simp
next
  case (Cons i xs)
  show ?case
  proof (cases "de_resolve nn_table True (neighbors_at x y i)")
    case (Inl e')
    then have "e' = e" using Cons.prems by simp
    with Inl show ?thesis
      by (auto simp: de_resolve_def lookup_def has_key_def split: if_splits option.splits)
  next
    case (Inr d)
    then show ?thesis using Cons by simp
  qed
qed

lemma bind_Inl_cases:
  assumes "bind m f = Inl e"
  obtains "m = Inl e" | v where "m = Inr v" and "f v = Inl e"
  using assms by (cases m) (simp_all add: bind_def)

lemma initialize_error:
  assumes "initialize_thermodynamics nn_table seq c = Inl e"
  shows "e = IndexError \<or> (\<exists>key. e = KeyError key)"
proof -
  have lk: "lookup t key = Inl e \<Longrightarrow> \<exists>key. e = KeyError key" for t key
    by (auto simp: lookup_def split: option.splits)
  have ae: "add_entry t key acc = Inl e \<Longrightarrow> \<exists>key. e = KeyError key" for t key acc
    unfolding add_entry_def by (erule bind_Inl_cases) (auto dest: lk)
  have ae1: "(if b then add_entry t key acc else Inr acc) = Inl e \<Longrightarrow> \<exists>key. e = KeyError key"
    for b t key acc
    by (cases b) (auto dest: ae)
  have ae2: "(if b then add_entry t key acc else add_entry t key' acc) = Inl e
               \<Longrightarrow> \<exists>key. e = KeyError key"
    for b t key key' acc
    by (cases b) (auto dest: ae)
  have te: "terminal_ends seq = Inl e \<Longrightarrow> e = IndexError"
    by (auto simp: terminal_ends_def split: list.splits)
  from assms show ?thesis
    unfolding initialize_thermodynamics_def Let_def
    by (elim bind_Inl_cases) (blast dest: lk ae1 ae2 te)+
qed

lemma determine_shift_error: "determine_shift seq c_seq = Inl e \<Longrightarrow> e = ValueError NoAlignment"
  by (auto simp: determine_shift_def Let_def split: option.splits)

lemma calculate_dangling_end_core:
  assumes i: "initialize_thermodynamics nn_table seq None = Inr d0"
    and k: "determine_shift seq c_seq = Inr k"
  obtains x y d1 where
    "\<And>strict. calculate_dangling_end seq c_seq nn_table de strict
        = de_loop nn_table strict x y [0 ..< min (length x) (length y) - 1] d1"
proof -
  obtain x y d1 where
    "de_right de (de_left de (fst (de_align k seq c_seq), snd (de_align k seq c_seq), d0))
       = (x, y, d1)"
    by (cases "de_right de (de_left de (fst (de_align k seq c_seq),
                 snd (de_align k seq c_seq), d0))") blast
  then have "calculate_dangling_end seq c_seq nn_table de strict
        = de_loop nn_table strict x y [0 ..< min (length x) (length y) - 1] d1" for strict
    by (simp add: calculate_dangling_end_def i k bind_Inr)
  then show thesis by (rule that)
qed

lemma calculate_dangling_end_early:
  "initialize_thermodynamics nn_table seq None = Inl e \<Longrightarrow>
     calculate_dangling_end seq c_seq nn_table de strict = Inl e"
  "initialize_thermodynamics nn_table seq None = Inr d0 \<Longrightarrow> determine_shift seq c_seq = Inl e \<Longrightarrow>
     calculate_dangling_end seq c_seq nn_table de strict = Inl e"
  by (simp_all add: calculate_dangling_end_def bind_Inl bind_Inr)

lemma dangling_end_strictness:
  "calculate_dangling_end seq c_seq nn_table de False \<noteq> Inl (ValueError (MissingData key))"
  "calculate_dangling_end seq c_seq nn_table de True = Inr r \<Longrightarrow>
     calculate_dangling_end seq c_seq nn_table de False = Inr r"
  "calculate_dangling_end seq c_seq nn_table de True = Inl e \<Longrightarrow>
     (\<exists>key. e = ValueError (MissingData key) \<and> \<not> has_key nn_table key \<and>
            \<not> has_key nn_table (rev key)) \<or>
     calculate_dangling_end seq c_seq nn_table de False = Inl e"
proof -
  consider (init) e' where "initialize_thermodynamics nn_table seq None = Inl e'"
    | (shift) d0 e' where "initialize_thermodynamics nn_table seq None = Inr d0"
        "determine_shift seq c_seq = Inl e'"
    | (core) d0 k where "initialize_thermodynamics nn_table seq None = Inr d0"
        "determine_shift seq c_seq = Inr k"
    by (cases "initialize_thermodynamics nn_table seq None"; cases "determine_shift seq c_seq")
       blast+
  then have "calculate_dangling_end seq c_seq nn_table de False \<noteq> Inl (ValueError (MissingData key)) \<and>
    (calculate_dangling_end seq c_seq nn_table de True = Inr r \<longrightarrow>
       calculate_dangling_end seq c_seq nn_table de False = Inr r) \<and>
    (calculate_dangling_end seq c_seq nn_table de True = Inl e \<longrightarrow>
       (\<exists>key. e = ValueError (MissingData key) \<and> \<not> has_key nn_table key \<and>
            \<not> has_key nn_table (rev key)) \<or>
       calculate_dangling_end seq c_seq nn_table de False = Inl e)"
  proof cases
    case init
    then have "\<And>strict. calculate_dangling_end seq c_seq nn_table de strict = Inl e'"
      by (rule calculate_dangling_end_early(1))
    moreover have "e' \<noteq> ValueError (MissingData key)"
      using initialize_error [OF init] by auto
    ultimately show ?thesis by simp
  next
    case shift
    then have "\<And>strict. calculate_dangling_end seq c_seq nn_table de strict = Inl e'"
      by (rule calculate_dangling_end_early(2))
    moreover have "e' \<noteq> ValueError (MissingData key)"
      using determine_shift_error [OF shift(2)] by simp
    ultimately show ?thesis by simp
  next
    case core
    from calculate_dangling_end_core [OF core, of de] obtain x y d1 where
      c: "\<And>strict. calculate_dangling_end seq c_seq nn_table de strict
        = de_loop nn_table strict x y [0 ..< min (length x) (length y) - 1] d1"
      by blast
    show ?thesis
      unfolding c
      using de_loop_lenient [of nn_table x y "[0 ..< min (length x) (length y) - 1]" d1]
        de_loop_strict_Inr [of nn_table x y "[0 ..< min (length x) (length y) - 1]" d1 r]
        de_loop_strict_Inl [of nn_table x y "[0 ..< min (length x) (length y) - 1]" d1 e]
      by auto
  qed
  then show
    "calculate_dangling_end seq c_seq nn_table de False \<noteq> Inl (ValueError (MissingData key))"
    "calculate_dangling_end seq c_seq nn_table de True = Inr r \<Longrightarrow>
       calculate_dangling_end seq c_seq nn_table de False = Inr r"
    "calculate_dangling_end seq c_seq nn_table de True = Inl e \<Longrightarrow>
     (\<exists>key. e = ValueError (MissingData key) \<and> \<not> has_key nn_table key \<and>
            \<not> has_key nn_table (rev key)) \<or>
     calculate_dangling_end seq c_seq nn_table de False = Inl e"
    by blast+
qed


lemma engine_internal_mismatch:
  assumes "truthy_table nn" "truthy_str c_seq" "truthy_table imm"
    and "calculate_internal_mismatch (upper seq) (the c_seq) (the nn) (the imm) = Inr d"
  shows "calculate_duplex_thermodynamics seq c_seq T nn imm tmm de_dna de_rna
           ''Internal Mismatch'' strict
         = Inr (fst d, snd d, fst d - temperature_of T * (snd d / 1000))"
  using assms unfolding calculate_duplex_thermodynamics_def Let_def by (simp add: bind_Inr)

lemma engine_terminal_mismatch:
  assumes "truthy_table nn" "truthy_str c_seq" "truthy_table tmm"
    and "calculate_terminal_mismatch (upper seq) (the c_seq) (the nn) (the tmm) = Inr d"
  shows "calculate_duplex_thermodynamics seq c_seq T nn imm tmm de_dna de_rna
           ''Terminal Mismatch'' strict
         = Inr (fst d, snd d, fst d - temperature_of T * (snd d / 1000))"
  using assms unfolding calculate_duplex_thermodynamics_def Let_def by (simp add: bind_Inr)

lemma engine_dangling_end_dna:
  assumes "truthy_table nn" "truthy_str c_seq" "truthy_table de_dna"
    and "calculate_dangling_end (upper seq) (the c_seq) (the nn) (the de_dna) strict = Inr d"
  shows "calculate_duplex_thermodynamics seq c_seq T nn imm tmm de_dna de_rna
           ''Dangling-End DNA'' strict
         = Inr (fst d, snd d, fst d - temperature_of T * (snd d / 1000))"
  using assms unfolding calculate_duplex_thermodynamics_def Let_def by (simp add: bind_Inr)

lemma engine_dangling_end_rna:
  assumes "truthy_table nn" "truthy_str c_seq" "truthy_table de_rna"
    and "calculate_dangling_end (upper seq) (the c_seq) (the nn) (the de_rna) strict = Inr d"
  shows "calculate_duplex_thermodynamics seq c_seq T nn imm tmm de_dna de_rna
           ''Dangling-End RNA'' strict
         = Inr (fst d, snd d, fst d - temperature_of T * (snd d / 1000))"
  using assms unfolding calculate_duplex_thermodynamics_def Let_def by (simp add: bind_Inr)

lemma calculate_terminal_mismatch_returns:
  "complete_table nn_table \<Longrightarrow> seq \<noteq> [] \<Longrightarrow>
     \<exists>d. calculate_terminal_mismatch seq c_seq nn_table tmm = Inr d"
  using initialize_returns [of nn_table seq None]
  by (auto simp: calculate_terminal_mismatch_def bind_Inr Let_def)

lemma calculate_internal_mismatch_returns:
  assumes "complete_table nn_table" "seq \<noteq> []"
    and "\<forall>i < length seq - 1. four_lookups nn_table imm (neighbors_at seq c_seq i) \<noteq> None"
  shows "\<exists>d. calculate_internal_mismatch seq c_seq nn_table imm = Inr d"
proof -
  obtain d0 where "initialize_thermodynamics nn_table seq None = Inr d0"
    using initialize_returns [OF assms(1,2)] by blast
  then show ?thesis
    using assms(3) by (simp add: calculate_internal_mismatch_def bind_Inr imm_loop_Inr)
qed

lemma calculate_dangling_end_returns:
  assumes "complete_table nn_table" "seq \<noteq> []" "determine_shift seq c_seq = Inr k"
  shows "\<exists>d. calculate_dangling_end seq c_seq nn_table de False = Inr d"
proof -
  obtain d0 where i: "initialize_thermodynamics nn_table seq None = Inr d0"
    using initialize_returns [OF assms(1,2)] by blast
  from calculate_dangling_end_core [OF i assms(3), of de] obtain x y d1 where
    "\<And>strict. calculate_dangling_end seq c_seq nn_table de strict
        = de_loop nn_table strict x y [0 ..< min (length x) (length y) - 1] d1"
    by blast
  then show ?thesis using de_loop_lenient by simp
qed

lemma nn_loop_foldl:
  "nn_loop t seq c_seq xs acc
     = foldl add_thermo acc (map (\<lambda>i. get_either t (neighbors_at seq c_seq i)) xs)"
  by (induction xs arbitrary: acc) (simp_all add: Let_def add_thermo_def)

lemma calculate_matching_terms:
  "calculate_matching seq c_seq t =
     bind (initialize_thermodynamics t seq None)
       (\<lambda>d0. Inr (foldl add_thermo d0 (stacking_terms t seq c_seq)))"
  by (simp add: calculate_matching_def nn_loop_foldl stacking_terms_def)

lemma map_upt_rev: "map (\<lambda>i. F (m - 1 - i)) [0 ..< m] = rev (map F [0 ..< m])"
  by (rule nth_equalityI) (simp_all add: rev_nth)

lemma stacking_terms_rev:
  assumes len: "length seq = length c_seq"
    and cons: "\<forall>i < length seq - 1. orientation_consistent t (neighbors_at seq c_seq i)"
  shows "stacking_terms t (rev c_seq) (rev seq) = rev (stacking_terms t seq c_seq)"
proof -
  let ?m = "length seq - 1"
  let ?F = "\<lambda>i. get_either t (neighbors_at seq c_seq i)"
  have step: "get_either t (neighbors_at (rev c_seq) (rev seq) i) = ?F (?m - 1 - i)"
    if "i \<in> set [0 ..< ?m]" for i
  proof -
    from that have i: "i < ?m" by simp
    then have j: "length seq - 2 - i < length seq - 1" by simp
    have "neighbors_at (rev c_seq) (rev seq) i = rev (neighbors_at seq c_seq (length seq - 2 - i))"
      using len i by (rule neighbors_at_rev)
    moreover have "orientation_consistent t (neighbors_at seq c_seq (length seq - 2 - i))"
      using cons j by blast
    moreover have "?m - 1 - i = length seq - 2 - i" by simp
    ultimately show ?thesis by (simp add: get_either_rev)
  qed
  have "stacking_terms t (rev c_seq) (rev seq)
          = map (\<lambda>i. get_either t (neighbors_at (rev c_seq) (rev seq) i)) [0 ..< ?m]"
    by (simp add: stacking_terms_def len)
  also have "\<dots> = map (\<lambda>i. ?F (?m - 1 - i)) [0 ..< ?m]"
    by (rule map_cong [OF refl]) (rule step)
  also have "\<dots> = rev (map ?F [0 ..< ?m])"
    by (rule map_upt_rev)
  finally show ?thesis by (simp add: stacking_terms_def)
qed











lemma get_default_absent: "\<not> has_key t k \<Longrightarrow> get_default t k d = d"
  by (cases "map_of t k") (simp_all add: has_key_def get_default_def)

lemma de_left_terms:
  "de_left de (x, y, d) =
     (if startswith x ''.'' \<or> startswith y ''.''
      then (drop 1 x, drop 1 y, add_thermo d (get_default de (left_de x y) (0, 0)))
      else (x, y, d))"
  by (cases "has_key de (left_de x y)")
     (simp_all add: de_left_def add_thermo_def get_default_absent Let_def)

lemma de_right_terms:
  "de_right de (x, y, d) =
     (if endswith x ''.'' \<or> endswith y ''.''
      then (butlast x, butlast y, add_thermo d (get_default de (right_de x y) (0, 0)))
      else (x, y, d))"
  by (cases "has_key de (right_de x y)")
     (simp_all add: de_right_def add_thermo_def get_default_absent Let_def)

lemma de_both_terms:
  "de_right de (de_left de (fst (de_align k seq c_seq), snd (de_align k seq c_seq), d0))
     = (fst (de_core k seq c_seq), snd (de_core k seq c_seq),
        foldl add_thermo d0 (map (\<lambda>key. get_default de key (0, 0)) (de_keys k seq c_seq)))"
  unfolding de_left_terms de_core_def de_keys_def Let_def
  by (simp add: de_right_terms)

lemma de_resolve_found:
  "strict \<longrightarrow> has_key nn key \<or> has_key nn (rev key) \<Longrightarrow>
     de_resolve nn strict key = Inr (get_either nn key)"
  by (auto simp: de_resolve_def get_either_def get_default_def has_key_def lookup_def
      split: option.splits)

lemma de_loop_foldl:
  "(strict \<longrightarrow> (\<forall>i \<in> set xs. has_key nn (neighbors_at x y i) \<or> has_key nn (rev (neighbors_at x y i))))
     \<Longrightarrow> de_loop nn strict x y xs acc
           = Inr (foldl add_thermo acc (map (\<lambda>i. get_either nn (neighbors_at x y i)) xs))"
proof (induction xs arbitrary: acc)
  case Nil
  show ?case by simp
next
  case (Cons i xs)
  have "de_resolve nn strict (neighbors_at x y i) = Inr (get_either nn (neighbors_at x y i))"
    using Cons.prems by (intro de_resolve_found) simp
  moreover have "de_loop nn strict x y xs acc'
           = Inr (foldl add_thermo acc' (map (\<lambda>i. get_either nn (neighbors_at x y i)) xs))" for acc'
    using Cons.prems by (intro Cons.IH) simp
  ultimately show ?case by (simp add: add_thermo_def [of acc])
qed

lemma de_loop_fail:
  assumes "\<forall>j \<in> set pre. has_key nn (neighbors_at x y j) \<or> has_key nn (rev (neighbors_at x y j))"
    and "\<not> has_key nn (neighbors_at x y i)" "\<not> has_key nn (rev (neighbors_at x y i))"
  shows "de_loop nn True x y (pre @ i # post) acc
           = Inl (ValueError (MissingData (neighbors_at x y i)))"
  using assms
proof (induction pre arbitrary: acc)
  case Nil
  then show ?case by (simp add: de_resolve_def)
next
  case (Cons j pre)
  have "de_resolve nn True (neighbors_at x y j) = Inr (get_either nn (neighbors_at x y j))"
    using Cons.prems by (intro de_resolve_found) simp
  with Cons show ?case by simp
qed

lemma calculate_dangling_end_terms:
  assumes k: "determine_shift seq c_seq = Inr k"
    and i: "initialize_thermodynamics nn seq None = Inr d0"
  shows "calculate_dangling_end seq c_seq nn de strict
           = de_loop nn strict (fst (de_core k seq c_seq)) (snd (de_core k seq c_seq))
               [0 ..< min (length (fst (de_core k seq c_seq))) (length (snd (de_core k seq c_seq))) - 1]
               (foldl add_thermo d0 (map (\<lambda>key. get_default de key (0, 0)) (de_keys k seq c_seq)))"
  by (simp add: calculate_dangling_end_def k i bind_Inr de_both_terms)

lemma calculate_dangling_end_sum:
  assumes k: "determine_shift seq c_seq = Inr k"
    and i: "initialize_thermodynamics nn seq None = Inr d0"
    and f: "strict \<longrightarrow> (\<forall>key \<in> set (core_keys k seq c_seq). has_key nn key \<or> has_key nn (rev key))"
  shows "calculate_dangling_end seq c_seq nn de strict
           = Inr (foldl add_thermo
                    (foldl add_thermo d0 (map (\<lambda>key. get_default de key (0, 0)) (de_keys k seq c_seq)))
                    (map (get_either nn) (core_keys k seq c_seq)))"
proof -
  let ?x = "fst (de_core k seq c_seq)" and ?y = "snd (de_core k seq c_seq)"
  let ?xs = "[0 ..< min (length ?x) (length ?y) - 1]"
  have "strict \<longrightarrow> (\<forall>i \<in> set ?xs. has_key nn (neighbors_at ?x ?y i) \<or> has_key nn (rev (neighbors_at ?x ?y i)))"
    using f by (simp add: core_keys_def Let_def)
  then have "de_loop nn strict ?x ?y ?xs acc
           = Inr (foldl add_thermo acc (map (\<lambda>i. get_either nn (neighbors_at ?x ?y i)) ?xs))" for acc
    by (rule de_loop_foldl)
  moreover have "map (\<lambda>i. get_either nn (neighbors_at ?x ?y i)) ?xs
                   = map (get_either nn) (core_keys k seq c_seq)"
    by (simp add: core_keys_def Let_def)
  ultimately show ?thesis
    by (simp only: calculate_dangling_end_terms [OF k i])
qed

lemma calculate_dangling_end_missing:
  assumes k: "determine_shift seq c_seq = Inr k"
    and i: "initialize_thermodynamics nn seq None = Inr d0"
    and n: "n < length (core_keys k seq c_seq)"
    and pre: "\<forall>j < n. has_key nn (core_keys k seq c_seq ! j) \<or> has_key nn (rev (core_keys k seq c_seq ! j))"
    and miss: "\<not> has_key nn (core_keys k seq c_seq ! n)" "\<not> has_key nn (rev (core_keys k seq c_seq ! n))"
  shows "calculate_dangling_end seq c_seq nn de True
           = Inl (ValueError (MissingData (core_keys k seq c_seq ! n)))"
proof -
  let ?x = "fst (de_core k seq c_seq)" and ?y = "snd (de_core k seq c_seq)"
  let ?m = "min (length ?x) (length ?y) - 1"
  have len: "length (core_keys k seq c_seq) = ?m"
    by (simp add: core_keys_def Let_def)
  have nth: "core_keys k seq c_seq ! j = neighbors_at ?x ?y j" if "j < ?m" for j
    using that by (simp add: core_keys_def Let_def)
  have n': "n < ?m" using n len by simp
  have split: "[0 ..< ?m] = [0 ..< n] @ n # [Suc n ..< ?m]"
    using n' by (rule upt_split)
  have p: "\<forall>j \<in> set [0 ..< n]. has_key nn (neighbors_at ?x ?y j) \<or> has_key nn (rev (neighbors_at ?x ?y j))"
  proof
    fix j assume "j \<in> set [0 ..< n]"
    then have j: "j < n" by simp
    then have "j < ?m" using n' by simp
    from nth [OF this] pre j show "has_key nn (neighbors_at ?x ?y j) \<or> has_key nn (rev (neighbors_at ?x ?y j))"
      by auto
  qed
  have m: "\<not> has_key nn (neighbors_at ?x ?y n)" "\<not> has_key nn (rev (neighbors_at ?x ?y n))"
    using miss nth [OF n'] by simp_all
  have "de_loop nn True ?x ?y ([0 ..< n] @ n # [Suc n ..< ?m]) acc
          = Inl (ValueError (MissingData (neighbors_at ?x ?y n)))" for acc
    using p m by (rule de_loop_fail)
  then show ?thesis
    unfolding calculate_dangling_end_terms [OF k i] nth [OF n']
    by (simp only: split [symmetric])
qed


lemmas eval_core_defs = core_keys_def de_core_def de_keys_def de_align_def startswith_def
  endswith_def left_de_def right_de_def neighbors_at_def upt_conv_Cons Let_def

subsection \<open>C1: the free energy follows from enthalpy, entropy and temperature\<close>

text \<open>
  Claim C1. In every calculation mode, a triple \<open>(dH, dS, dG)\<close> returned by
  \<open>calculate_duplex_thermodynamics\<close> satisfies \<open>dG = dH - temperature * (dS / 1000)\<close>,
  for whatever strands, tables, mode and strictness it was called with. The other
  parts show that the engine does return such a triple on valid input, mode by mode:
  given a non-empty primary strand and a base table holding the named initiation
  entries, Matching mode always returns; Terminal Mismatch mode returns when a
  complementary strand and its table are supplied; Internal Mismatch mode returns when
  moreover every adjacent-pair key is found by one of its four lookups; and the
  dangling-end modes, in the lenient configuration, return when the strands register.
\<close>

theorem free_energy_formula:
  "(calculate_duplex_thermodynamics seq c_seq T nn imm tmm de_dna de_rna calc_type strict
      = Inr (dH, dS, dG)
    \<longrightarrow> dG = dH - temperature_of T * (dS / 1000)) \<and>
   (truthy_table nn \<and> complete_table (the nn) \<and> seq \<noteq> [] \<longrightarrow>
      (\<exists>dH dS. calculate_duplex_thermodynamics seq c_seq T nn imm tmm de_dna de_rna
                 ''Matching'' strict
               = Inr (dH, dS, dH - temperature_of T * (dS / 1000)))) \<and>
   (truthy_table nn \<and> complete_table (the nn) \<and> seq \<noteq> [] \<and> truthy_str c_seq \<and>
    truthy_table tmm \<longrightarrow>
      (\<exists>dH dS. calculate_duplex_thermodynamics seq c_seq T nn imm tmm de_dna de_rna
                 ''Terminal Mismatch'' strict
               = Inr (dH, dS, dH - temperature_of T * (dS / 1000)))) \<and>
   (truthy_table nn \<and> complete_table (the nn) \<and> seq \<noteq> [] \<and> truthy_str c_seq \<and>
    truthy_table imm \<and>
    (\<forall>i < length seq - 1.
       four_lookups (the nn) (the imm) (neighbors_at (upper seq) (the c_seq) i) \<noteq> None) \<longrightarrow>
      (\<exists>dH dS. calculate_duplex_thermodynamics seq c_seq T nn imm tmm de_dna de_rna
                 ''Internal Mismatch'' strict
               = Inr (dH, dS, dH - temperature_of T * (dS / 1000)))) \<and>
   (truthy_table nn \<and> complete_table (the nn) \<and> seq \<noteq> [] \<and> truthy_str c_seq \<and>
    truthy_table de_dna \<and> truthy_table de_rna \<and> determine_shift seq (the c_seq) = Inr k \<longrightarrow>
      (\<exists>dH dS. calculate_duplex_thermodynamics seq c_seq T nn imm tmm de_dna de_rna
                 ''Dangling-End DNA'' False
               = Inr (dH, dS, dH - temperature_of T * (dS / 1000))) \<and>
      (\<exists>dH dS. calculate_duplex_thermodynamics seq c_seq T nn imm tmm de_dna de_rna
                 ''Dangling-End RNA'' False
               = Inr (dH, dS, dH - temperature_of T * (dS / 1000))))"
proof (intro conjI impI)
  assume "calculate_duplex_thermodynamics seq c_seq T nn imm tmm de_dna de_rna calc_type strict
      = Inr (dH, dS, dG)"
  then show "dG = dH - temperature_of T * (dS / 1000)"
    unfolding calculate_duplex_thermodynamics_def Let_def
    by (auto simp: bind_Inr_iff split: if_splits)
next
  assume a: "truthy_table nn \<and> complete_table (the nn) \<and> seq \<noteq> []"
  then have "upper seq \<noteq> []" by (simp add: upper_def)
  with a obtain d where d: "initialize_thermodynamics (the nn) (upper seq) None = Inr d"
    using initialize_returns by blast
  show "\<exists>dH dS. calculate_duplex_thermodynamics seq c_seq T nn imm tmm de_dna de_rna
                 ''Matching'' strict
               = Inr (dH, dS, dH - temperature_of T * (dS / 1000))"
    using a unfolding calculate_duplex_thermodynamics_def Let_def calculate_matching_def
    by (simp add: d bind_Inr)
next
  assume a: "truthy_table nn \<and> complete_table (the nn) \<and> seq \<noteq> [] \<and> truthy_str c_seq \<and>
    truthy_table tmm"
  then have "upper seq \<noteq> []" by (simp add: upper_def)
  with a obtain d where
    "calculate_terminal_mismatch (upper seq) (the c_seq) (the nn) (the tmm) = Inr d"
    using calculate_terminal_mismatch_returns by blast
  with a show "\<exists>dH dS. calculate_duplex_thermodynamics seq c_seq T nn imm tmm de_dna de_rna
                 ''Terminal Mismatch'' strict
               = Inr (dH, dS, dH - temperature_of T * (dS / 1000))"
    using engine_terminal_mismatch [of nn c_seq tmm seq d] by blast
next
  assume a: "truthy_table nn \<and> complete_table (the nn) \<and> seq \<noteq> [] \<and> truthy_str c_seq \<and>
    truthy_table imm \<and>
    (\<forall>i < length seq - 1.
       four_lookups (the nn) (the imm) (neighbors_at (upper seq) (the c_seq) i) \<noteq> None)"
  then have "upper seq \<noteq> []" by (simp add: upper_def)
  with a obtain d where
    "calculate_internal_mismatch (upper seq) (the c_seq) (the nn) (the imm) = Inr d"
    using calculate_internal_mismatch_returns [of "the nn" "upper seq" "the imm" "the c_seq"]
    by auto
  with a show "\<exists>dH dS. calculate_duplex_thermodynamics seq c_seq T nn imm tmm de_dna de_rna
                 ''Internal Mismatch'' strict
               = Inr (dH, dS, dH - temperature_of T * (dS / 1000))"
    using engine_internal_mismatch [of nn c_seq imm seq d] by blast
next
  assume a: "truthy_table nn \<and> complete_table (the nn) \<and> seq \<noteq> [] \<and> truthy_str c_seq \<and>
    truthy_table de_dna \<and> truthy_table de_rna \<and> determine_shift seq (the c_seq) = Inr k"
  then have u: "upper seq \<noteq> []" by (simp add: upper_def)
  from a have k: "determine_shift (upper seq) (the c_seq) = Inr k"
    by (simp add: determine_shift_upper)
  from a u k obtain d where
    "calculate_dangling_end (upper seq) (the c_seq) (the nn) (the de_dna) False = Inr d"
    using calculate_dangling_end_returns by blast
  with a show "\<exists>dH dS. calculate_duplex_thermodynamics seq c_seq T nn imm tmm de_dna de_rna
                 ''Dangling-End DNA'' False
               = Inr (dH, dS, dH - temperature_of T * (dS / 1000))"
    using engine_dangling_end_dna [of nn c_seq de_dna seq False d] by blast
next
  assume a: "truthy_table nn \<and> complete_table (the nn) \<and> seq \<noteq> [] \<and> truthy_str c_seq \<and>
    truthy_table de_dna \<and> truthy_table de_rna \<and> determine_shift seq (the c_seq) = Inr k"
  then have u: "upper seq \<noteq> []" by (simp add: upper_def)
  from a have k: "determine_shift (upper seq) (the c_seq) = Inr k"
    by (simp add: determine_shift_upper)
  from a u k obtain d where
    "calculate_dangling_end (upper seq) (the c_seq) (the nn) (the de_rna) False = Inr d"
    using calculate_dangling_end_returns by blast
  with a show "\<exists>dH dS. calculate_duplex_thermodynamics seq c_seq T nn imm tmm de_dna de_rna
                 ''Dangling-End RNA'' False
               = Inr (dH, dS, dH - temperature_of T * (dS / 1000))"
    using engine_dangling_end_rna [of nn c_seq de_rna seq False d] by blast
qed

theorem free_energy_formula_witness:
  "calculate_duplex_thermodynamics ''GCGC'' None (Some 310.15) (Some DNA_NN5) None None None None
      ''Matching'' True = Inr (- 32.3, - 89.6, - 4.51056) \<and>
   (- 4.51056 :: real) = - 32.3 - temperature_of (Some 310.15) * (- 89.6 / 1000) \<and>
   truthy_table (Some DNA_NN5) \<and> complete_table (the (Some DNA_NN5)) \<and> ''GCGC'' \<noteq> [] \<and>
   (\<exists>dH dS. calculate_duplex_thermodynamics ''GCGC'' None (Some 310.15) (Some DNA_NN5) None None
        None None ''Matching'' True = Inr (dH, dS, dH - temperature_of (Some 310.15) * (dS / 1000))) \<and>
   ''ACGT'' \<noteq> [] \<and> truthy_str (Some ''TTGCA'') \<and> truthy_table (Some [(''.A/TT'', (1, 2))]) \<and>
   determine_shift ''ACGT'' (the (Some ''TTGCA'')) = Inr 1 \<and>
   (\<exists>dH dS. calculate_duplex_thermodynamics ''ACGT'' (Some ''TTGCA'') (Some 310.15) (Some DNA_NN5)
        None None (Some [(''.A/TT'', (1, 2))]) (Some [(''.A/TT'', (1, 2))]) ''Dangling-End DNA'' False
      = Inr (dH, dS, dH - temperature_of (Some 310.15) * (dS / 1000)))"
proof -
  have r: "calculate_duplex_thermodynamics ''GCGC'' None (Some 310.15) (Some DNA_NN5) None None
      None None ''Matching'' True = Inr (- 32.3, - 89.6, - 4.51056)"
    by (simp add: eval_defs)
  have h: "truthy_table (Some DNA_NN5) \<and> complete_table (the (Some DNA_NN5)) \<and> ''GCGC'' \<noteq> []"
    by (simp add: DNA_NN5_def complete_table_def named_entries_def has_key_def)
  from free_energy_formula [of "''GCGC''" None "Some 310.15" "Some DNA_NN5" None None None None
      "''Matching''" True "- 32.3" "- 89.6" "- 4.51056"] r h
  have 1: "(- 4.51056 :: real) = - 32.3 - temperature_of (Some 310.15) * (- 89.6 / 1000) \<and>
    (\<exists>dH dS. calculate_duplex_thermodynamics ''GCGC'' None (Some 310.15) (Some DNA_NN5) None None
        None None ''Matching'' True = Inr (dH, dS, dH - temperature_of (Some 310.15) * (dS / 1000)))"
    by blast
  have k: "determine_shift ''ACGT'' (the (Some ''TTGCA'')) = Inr 1"
    by (simp add: determine_shift_def upper_def upper_char_def complement_def complement_base_def
          upt_conv_Cons)
  have g: "''ACGT'' \<noteq> [] \<and> truthy_str (Some ''TTGCA'') \<and> truthy_table (Some [(''.A/TT'', (1, 2))])"
    by simp
  from free_energy_formula [of "''ACGT''" "Some ''TTGCA''" "Some 310.15" "Some DNA_NN5" None None
      "Some [(''.A/TT'', (1, 2))]" "Some [(''.A/TT'', (1, 2))]" _ _ _ _ _ 1] h g k
  have 2: "\<exists>dH dS. calculate_duplex_thermodynamics ''ACGT'' (Some ''TTGCA'') (Some 310.15)
        (Some DNA_NN5) None None (Some [(''.A/TT'', (1, 2))]) (Some [(''.A/TT'', (1, 2))])
        ''Dangling-End DNA'' False
      = Inr (dH, dS, dH - temperature_of (Some 310.15) * (dS / 1000))"
    by blast
  from r h 1 g k 2 show ?thesis by blast
qed

subsection \<open>C2: the two-phase scan of the alignment resolver\<close>

text \<open>
  Claim C2. Write \<open>s\<close> for the primary strand and \<open>c_comp\<close> for the complement of
  the complementary strand, both as \<open>determine_shift\<close> compares them (after its
  upper-casing). \<open>determine_shift\<close> returns the non-negative shift \<open>k\<close> exactly when
  \<open>k\<close> lies below \<open>max(len(c_comp), len(s))\<close>, the strands register at \<open>k\<close> (positive
  overlap, prefix of \<open>s\<close> equal to the substring of \<open>c_comp\<close> at \<open>k\<close>) and at no smaller
  shift. When no non-negative shift registers, it returns \<open>-k\<close> exactly when \<open>k\<close> is
  the smallest shift in \<open>1 .. len(s) - 1\<close> at which the substring of \<open>s\<close> starting at
  \<open>k\<close> equals the prefix of \<open>c_comp\<close>. In particular a non-empty primary strand that
  occurs in \<open>c_comp\<close> as a contiguous substring, first at offset \<open>k\<close>, is given the
  shift \<open>k\<close>, and the pair \<open>"ATCG"\<close> / \<open>"TAGC"\<close> is given the shift 0.
\<close>

theorem determine_shift_scan:
  assumes s: "s = upper seq" and c: "c_comp = complement (upper c_seq)"
  shows
    "(determine_shift seq c_seq = Inr (int k) \<longleftrightarrow>
        k < max (length c_comp) (length s) \<and> registers_right s c_comp k \<and>
        (\<forall>j<k. \<not> registers_right s c_comp j)) \<and>
     ((\<forall>j < max (length c_comp) (length s). \<not> registers_right s c_comp j) \<longrightarrow>
        (determine_shift seq c_seq = Inr (- int k) \<longleftrightarrow>
           1 \<le> k \<and> k < length s \<and> registers_left s c_comp k \<and>
           (\<forall>j. 1 \<le> j \<and> j < k \<longrightarrow> \<not> registers_left s c_comp j))) \<and>
     (s \<noteq> [] \<and> k + length s \<le> length c_comp \<and> take (length s) (drop k c_comp) = s \<and>
      (\<forall>j<k. take (length s) (drop j c_comp) \<noteq> s) \<longrightarrow>
        determine_shift seq c_seq = Inr (int k)) \<and>
     determine_shift ''ATCG'' ''TAGC'' = Inr 0"
proof -
  let ?R = "registers_right s c_comp" and ?L = "registers_left s c_comp"
  let ?m = "max (length c_comp) (length s)"
  have ds: "determine_shift seq c_seq =
     (case List.find ?R [0 ..< ?m] of
        Some k \<Rightarrow> Inr (int k)
      | None \<Rightarrow> (case List.find ?L [1 ..< length s] of
             Some k \<Rightarrow> Inr (- int k) | None \<Rightarrow> Inl (ValueError NoAlignment)))"
    by (simp add: determine_shift_find s c cong: option.case_cong)
  have left_pos: "List.find ?L [1 ..< length s] = Some k' \<Longrightarrow> 1 \<le> k'" for k'
    by (simp add: find_upt_Some)
  have p1: "determine_shift seq c_seq = Inr (int k) \<longleftrightarrow> List.find ?R [0 ..< ?m] = Some k"
    unfolding ds using left_pos by (auto split: option.splits)
  have p1': "determine_shift seq c_seq = Inr (int k) \<longleftrightarrow>
        k < ?m \<and> ?R k \<and> (\<forall>j<k. \<not> ?R j)"
    unfolding p1 by (simp add: find_upt_Some)
  have p2: "determine_shift seq c_seq = Inr (- int k) \<longleftrightarrow>
           1 \<le> k \<and> k < length s \<and> ?L k \<and> (\<forall>j. 1 \<le> j \<and> j < k \<longrightarrow> \<not> ?L j)"
    if none: "\<forall>j < ?m. \<not> ?R j"
  proof -
    have "List.find ?R [0 ..< ?m] = None" using none by (simp add: find_upt_None)
    then have "determine_shift seq c_seq = Inr (- int k) \<longleftrightarrow> List.find ?L [1 ..< length s] = Some k"
      unfolding ds by (auto split: option.splits)
    then show ?thesis by (simp add: find_upt_Some)
  qed
  have p3: "determine_shift seq c_seq = Inr (int k)"
    if sub: "s \<noteq> [] \<and> k + length s \<le> length c_comp \<and> take (length s) (drop k c_comp) = s \<and>
      (\<forall>j<k. take (length s) (drop j c_comp) \<noteq> s)"
  proof -
    from sub have pos: "0 < length s" and le: "k + length s \<le> length c_comp"
      and occ: "take (length s) (drop k c_comp) = s"
      and first: "\<forall>j<k. take (length s) (drop j c_comp) \<noteq> s"
      by simp_all
    have m: "min (length s) (length c_comp - j) = length s" if "j \<le> k" for j
      using le that by simp
    have kl: "k < length c_comp" using pos le by linarith
    have ne: "s \<noteq> []" using pos by simp
    have "?R k" using occ kl ne m [of k] by (simp add: registers_right_def)
    moreover have "\<not> ?R j" if "j < k" for j
      using first that m [of j] by (auto simp add: registers_right_def)
    moreover have "k < ?m" using kl by simp
    ultimately show ?thesis unfolding p1' by simp
  qed
  have p4: "determine_shift ''ATCG'' ''TAGC'' = Inr 0"
    by (simp add: determine_shift_def upper_def upper_char_def complement_def complement_base_def)
  show ?thesis using p1' p2 p3 p4 by blast
qed

theorem determine_shift_scan_witness:
  "determine_shift ''ACGT'' ''TTGCA'' = Inr (int 1) \<and>
   ''ACGT'' = upper ''ACGT'' \<and> ''AACGT'' = complement (upper ''TTGCA'') \<and>
   ''ACGT'' \<noteq> [] \<and> 1 + length ''ACGT'' \<le> length ''AACGT'' \<and>
   take (length ''ACGT'') (drop 1 ''AACGT'') = ''ACGT'' \<and>
   take (length ''ACGT'') (drop 0 ''AACGT'') \<noteq> ''ACGT'' \<and>
   registers_right ''ACGT'' ''AACGT'' 1 \<and> \<not> registers_right ''ACGT'' ''AACGT'' 0 \<and>
   ''AC'' = upper ''AC'' \<and> ''CC'' = complement (upper ''GG'') \<and>
   max (length ''CC'') (length ''AC'') = 2 \<and>
   \<not> registers_right ''AC'' ''CC'' 0 \<and> \<not> registers_right ''AC'' ''CC'' 1 \<and>
   registers_left ''AC'' ''CC'' 1 \<and>
   determine_shift ''AC'' ''GG'' = Inr (- int 1)"
proof -
  have s: "''ACGT'' = upper ''ACGT''" and c: "''AACGT'' = complement (upper ''TTGCA'')"
    by (simp_all add: upper_def upper_char_def complement_def complement_base_def)
  have h: "''ACGT'' \<noteq> [] \<and> 1 + length ''ACGT'' \<le> length ''AACGT'' \<and>
     take (length ''ACGT'') (drop 1 ''AACGT'') = ''ACGT'' \<and>
     (\<forall>j<1. take (length ''ACGT'') (drop j ''AACGT'') \<noteq> ''ACGT'')"
    by simp
  from determine_shift_scan [OF s c, of 1] h
  have r: "determine_shift ''ACGT'' ''TTGCA'' = Inr (int 1)" by blast
  have s2: "''AC'' = upper ''AC''" and c2: "''CC'' = complement (upper ''GG'')"
    by (simp_all add: upper_def upper_char_def complement_def complement_base_def)
  have n2: "\<forall>j < max (length ''CC'') (length ''AC''). \<not> registers_right ''AC'' ''CC'' j"
    by (simp add: registers_right_def numeral_2_eq_2 less_Suc_eq)
  have l2: "1 \<le> (1::nat) \<and> 1 < length ''AC'' \<and> registers_left ''AC'' ''CC'' 1 \<and>
     (\<forall>j. 1 \<le> j \<and> j < 1 \<longrightarrow> \<not> registers_left ''AC'' ''CC'' j)"
    by (simp add: registers_left_def)
  from determine_shift_scan [OF s2 c2, of 1] n2 l2
  have r2: "determine_shift ''AC'' ''GG'' = Inr (- int 1)" by blast
  have e: "take (length ''ACGT'') (drop 0 ''AACGT'') \<noteq> ''ACGT'' \<and>
     \<not> registers_right ''ACGT'' ''AACGT'' 0 \<and> max (length ''CC'') (length ''AC'') = 2 \<and>
     \<not> registers_right ''AC'' ''CC'' 0 \<and> \<not> registers_right ''AC'' ''CC'' 1"
    by (simp add: registers_right_def)
  from determine_shift_scan [OF s c, of 1] r s c h s2 c2 n2 l2 r2 e show ?thesis by blast
qed

subsection \<open>C3: no registration is an error, and it ends the dangling-end computation\<close>

text \<open>
  Claim C3. With \<open>s\<close> and \<open>c_comp\<close> as in C2: \<open>determine_shift\<close> raises its alignment
  error exactly when no shift of the first scan and no shift of the second scan
  registers the strands. In that case it returns no offset at all,
  \<open>calculate_dangling_end\<close> returns no result for the pair (it raises the alignment
  error itself once the initiation has succeeded), and neither does the engine in either
  dangling-end mode.
\<close>

theorem no_alignment_is_fatal:
  assumes s: "s = upper seq" and c: "c_comp = complement (upper c_seq)"
  shows
    "(determine_shift seq c_seq = Inl (ValueError NoAlignment) \<longleftrightarrow>
        (\<forall>k < max (length c_comp) (length s). \<not> registers_right s c_comp k) \<and>
        (\<forall>k. 1 \<le> k \<and> k < length s \<longrightarrow> \<not> registers_left s c_comp k)) \<and>
     ((\<forall>k < max (length c_comp) (length s). \<not> registers_right s c_comp k) \<and>
      (\<forall>k. 1 \<le> k \<and> k < length s \<longrightarrow> \<not> registers_left s c_comp k) \<longrightarrow>
        (\<forall>v. determine_shift seq c_seq \<noteq> Inr v) \<and>
        (\<exists>e. calculate_dangling_end seq c_seq nn_table de_table strict = Inl e) \<and>
        (\<forall>d. initialize_thermodynamics nn_table seq None = Inr d \<longrightarrow>
           calculate_dangling_end seq c_seq nn_table de_table strict
             = Inl (ValueError NoAlignment)) \<and>
        (calc_type = ''Dangling-End DNA'' \<or> calc_type = ''Dangling-End RNA'' \<longrightarrow>
           (\<exists>e. calculate_duplex_thermodynamics seq (Some c_seq) T (Some nn_table) imm tmm
                  de_dna de_rna calc_type strict = Inl e)))"
proof -
  let ?R = "registers_right s c_comp" and ?L = "registers_left s c_comp"
  let ?m = "max (length c_comp) (length s)"
  have ds: "determine_shift seq c_seq =
     (case List.find ?R [0 ..< ?m] of
        Some k \<Rightarrow> Inr (int k)
      | None \<Rightarrow> (case List.find ?L [1 ..< length s] of
             Some k \<Rightarrow> Inr (- int k) | None \<Rightarrow> Inl (ValueError NoAlignment)))"
    by (simp add: determine_shift_find s c cong: option.case_cong)
  have iff: "determine_shift seq c_seq = Inl (ValueError NoAlignment) \<longleftrightarrow>
        (\<forall>k < ?m. \<not> ?R k) \<and> (\<forall>k. 1 \<le> k \<and> k < length s \<longrightarrow> \<not> ?L k)"
  proof -
    have "determine_shift seq c_seq = Inl (ValueError NoAlignment) \<longleftrightarrow>
            List.find ?R [0 ..< ?m] = None \<and> List.find ?L [1 ..< length s] = None"
      unfolding ds by (auto split: option.splits)
    then show ?thesis by (simp add: find_upt_None)
  qed
  have rest: "(\<forall>v. determine_shift seq c_seq \<noteq> Inr v) \<and>
        (\<exists>e. calculate_dangling_end seq c_seq nn_table de_table strict = Inl e) \<and>
        (\<forall>d. initialize_thermodynamics nn_table seq None = Inr d \<longrightarrow>
           calculate_dangling_end seq c_seq nn_table de_table strict
             = Inl (ValueError NoAlignment)) \<and>
        (calc_type = ''Dangling-End DNA'' \<or> calc_type = ''Dangling-End RNA'' \<longrightarrow>
           (\<exists>e. calculate_duplex_thermodynamics seq (Some c_seq) T (Some nn_table) imm tmm
                  de_dna de_rna calc_type strict = Inl e))"
    if fail: "determine_shift seq c_seq = Inl (ValueError NoAlignment)"
  proof -
    have "determine_shift (upper seq) c_seq = Inl (ValueError NoAlignment)"
      using fail by (simp add: determine_shift_upper)
    then have "\<And>a b. \<exists>e. calculate_dangling_end (upper seq) c_seq a b strict = Inl e"
      by (rule calculate_dangling_end_no_shift(1))
    then have "calc_type = ''Dangling-End DNA'' \<or> calc_type = ''Dangling-End RNA'' \<longrightarrow>
           (\<exists>e. calculate_duplex_thermodynamics seq (Some c_seq) T (Some nn_table) imm tmm
                  de_dna de_rna calc_type strict = Inl e)"
      using engine_dangling_end by blast
    then show ?thesis
      using calculate_dangling_end_no_shift [OF fail] fail by simp
  qed
  show ?thesis using iff rest by blast
qed

theorem no_alignment_is_fatal_witness:
  "''AC'' = upper ''AC'' \<and> ''TT'' = complement (upper ''AA'') \<and>
   max (length ''TT'') (length ''AC'') = 2 \<and>
   \<not> registers_right ''AC'' ''TT'' 0 \<and> \<not> registers_right ''AC'' ''TT'' 1 \<and>
   \<not> registers_left ''AC'' ''TT'' 1 \<and>
   determine_shift ''AC'' ''AA'' = Inl (ValueError NoAlignment) \<and>
   initialize_thermodynamics DNA_NN5 ''AC'' None = Inr (0, - 5.9) \<and>
   calculate_dangling_end ''AC'' ''AA'' DNA_NN5 [(''.A/TT'', (1, 2))] False
     = Inl (ValueError NoAlignment) \<and>
   (\<exists>e. calculate_duplex_thermodynamics ''AC'' (Some ''AA'') (Some 300) (Some DNA_NN5) None None
          (Some [(''.A/TT'', (1, 2))]) None ''Dangling-End DNA'' False = Inl e)"
proof -
  have s: "''AC'' = upper ''AC''" and c: "''TT'' = complement (upper ''AA'')"
    by (simp_all add: upper_def upper_char_def complement_def complement_base_def)
  have r: "\<forall>k < max (length ''TT'') (length ''AC''). \<not> registers_right ''AC'' ''TT'' k"
    by (simp add: registers_right_def numeral_2_eq_2 less_Suc_eq)
  have l: "\<forall>k. 1 \<le> k \<and> k < length ''AC'' \<longrightarrow> \<not> registers_left ''AC'' ''TT'' k"
    by (simp add: registers_left_def numeral_2_eq_2 less_Suc_eq)
  have i: "initialize_thermodynamics DNA_NN5 ''AC'' None = Inr (0, - 5.9)"
    by (simp add: eval_defs)
  from no_alignment_is_fatal [OF s c, of DNA_NN5 "[(''.A/TT'', (1, 2))]" False
      "''Dangling-End DNA''" "Some 300" None None "Some [(''.A/TT'', (1, 2))]" None] s c r l i
  have "determine_shift ''AC'' ''AA'' = Inl (ValueError NoAlignment) \<and>
    calculate_dangling_end ''AC'' ''AA'' DNA_NN5 [(''.A/TT'', (1, 2))] False
      = Inl (ValueError NoAlignment) \<and>
    (\<exists>e. calculate_duplex_thermodynamics ''AC'' (Some ''AA'') (Some 300) (Some DNA_NN5) None None
          (Some [(''.A/TT'', (1, 2))]) None ''Dangling-End DNA'' False = Inl e)"
    by blast
  moreover have "max (length ''TT'') (length ''AC'') = 2 \<and>
    \<not> registers_right ''AC'' ''TT'' 0 \<and> \<not> registers_right ''AC'' ''TT'' 1 \<and>
    \<not> registers_left ''AC'' ''TT'' 1"
    by (simp add: registers_right_def registers_left_def)
  ultimately show ?thesis using s c i by blast
qed

subsection \<open>C4: Internal Mismatch mode resolves a key by four lookups or fails\<close>

text \<open>
  Claim C4. In Internal Mismatch mode each adjacent-pair key is resolved by the four
  lookups in their order (mismatch table direct, mismatch table reversed, base table
  direct, base table reversed), and a key absent from all four is an error that names
  the key. A result of \<open>calculate_internal_mismatch\<close> therefore means that every key
  was found; the first key found nowhere ends the computation with the error naming
  it, which the engine passes on; and when every key is found the result is the
  initiation seed plus the values the four lookups give, with no zero put in for a
  missing one.
\<close>

theorem internal_mismatch_four_lookups:
  "imm_resolve nn_table imm_table k =
     (case four_lookups nn_table imm_table k of
        Some v \<Rightarrow> Inr v | None \<Rightarrow> Inl (ValueError (NoDataFound k))) \<and>
   (calculate_internal_mismatch seq c_seq nn_table imm_table = Inr r \<longrightarrow>
      (\<forall>i < length seq - 1.
         four_lookups nn_table imm_table (neighbors_at seq c_seq i) \<noteq> None)) \<and>
   (initialize_thermodynamics nn_table seq None = Inr d0 \<and> i < length seq - 1 \<and>
    four_lookups nn_table imm_table (neighbors_at seq c_seq i) = None \<and>
    (\<forall>j<i. four_lookups nn_table imm_table (neighbors_at seq c_seq j) \<noteq> None) \<longrightarrow>
      calculate_internal_mismatch seq c_seq nn_table imm_table
        = Inl (ValueError (NoDataFound (neighbors_at seq c_seq i)))) \<and>
   (initialize_thermodynamics nn_table seq None = Inr d0 \<and>
    (\<forall>i < length seq - 1.
       four_lookups nn_table imm_table (neighbors_at seq c_seq i) \<noteq> None) \<longrightarrow>
      calculate_internal_mismatch seq c_seq nn_table imm_table
        = Inr (fst d0 + (\<Sum>i\<leftarrow>[0 ..< length seq - 1].
                   fst (the (four_lookups nn_table imm_table (neighbors_at seq c_seq i)))),
               snd d0 + (\<Sum>i\<leftarrow>[0 ..< length seq - 1].
                   snd (the (four_lookups nn_table imm_table (neighbors_at seq c_seq i)))))) \<and>
   (calculate_internal_mismatch (upper seq) c_seq nn_table imm_table = Inl e \<and>
    c_seq \<noteq> [] \<and> nn_table \<noteq> [] \<and> imm_table \<noteq> [] \<longrightarrow>
      calculate_duplex_thermodynamics seq (Some c_seq) T (Some nn_table) (Some imm_table)
        tmm de_dna de_rna ''Internal Mismatch'' strict = Inl e)"
proof (intro conjI impI)
  show "imm_resolve nn_table imm_table k =
     (case four_lookups nn_table imm_table k of
        Some v \<Rightarrow> Inr v | None \<Rightarrow> Inl (ValueError (NoDataFound k)))"
    by (rule imm_resolve_four)
next
  assume "calculate_internal_mismatch seq c_seq nn_table imm_table = Inr r"
  then obtain d where
    "imm_loop nn_table imm_table seq c_seq [0 ..< length seq - 1] d = Inr r"
    by (auto simp: calculate_internal_mismatch_def bind_Inr_iff)
  then show "\<forall>i < length seq - 1.
         four_lookups nn_table imm_table (neighbors_at seq c_seq i) \<noteq> None"
    by (simp add: imm_loop_Inr)
next
  assume a: "initialize_thermodynamics nn_table seq None = Inr d0 \<and> i < length seq - 1 \<and>
    four_lookups nn_table imm_table (neighbors_at seq c_seq i) = None \<and>
    (\<forall>j<i. four_lookups nn_table imm_table (neighbors_at seq c_seq j) \<noteq> None)"
  then have sp: "[0 ..< length seq - 1] = [0 ..< i] @ i # [Suc i ..< length seq - 1]"
    using upt_split by blast
  have init: "initialize_thermodynamics nn_table seq None = Inr d0" using a by simp
  have "calculate_internal_mismatch seq c_seq nn_table imm_table
          = imm_loop nn_table imm_table seq c_seq [0 ..< length seq - 1] d0"
    by (simp add: calculate_internal_mismatch_def init bind_Inr)
  also have "\<dots> = imm_loop nn_table imm_table seq c_seq
                     ([0 ..< i] @ i # [Suc i ..< length seq - 1]) d0"
    by (simp only: sp [symmetric])
  also have "\<dots> = Inl (ValueError (NoDataFound (neighbors_at seq c_seq i)))"
    using a by (intro imm_loop_fail) simp_all
  finally show "calculate_internal_mismatch seq c_seq nn_table imm_table
        = Inl (ValueError (NoDataFound (neighbors_at seq c_seq i)))" .
next
  assume a: "initialize_thermodynamics nn_table seq None = Inr d0 \<and>
    (\<forall>i < length seq - 1.
       four_lookups nn_table imm_table (neighbors_at seq c_seq i) \<noteq> None)"
  then show "calculate_internal_mismatch seq c_seq nn_table imm_table
        = Inr (fst d0 + (\<Sum>i\<leftarrow>[0 ..< length seq - 1].
                   fst (the (four_lookups nn_table imm_table (neighbors_at seq c_seq i)))),
               snd d0 + (\<Sum>i\<leftarrow>[0 ..< length seq - 1].
                   snd (the (four_lookups nn_table imm_table (neighbors_at seq c_seq i)))))"
    by (simp add: calculate_internal_mismatch_def bind_Inr imm_loop_Inr)
next
  assume a: "calculate_internal_mismatch (upper seq) c_seq nn_table imm_table = Inl e \<and>
    c_seq \<noteq> [] \<and> nn_table \<noteq> [] \<and> imm_table \<noteq> []"
  then obtain x xs y ys z zs where "c_seq = x # xs" "nn_table = y # ys" "imm_table = z # zs"
    by (metis list.exhaust)
  then show "calculate_duplex_thermodynamics seq (Some c_seq) T (Some nn_table) (Some imm_table)
        tmm de_dna de_rna ''Internal Mismatch'' strict = Inl e"
    using a by (simp add: calculate_duplex_thermodynamics_def Let_def bind_Inr bind_Inl)
qed

theorem internal_mismatch_four_lookups_witness:
  "initialize_thermodynamics DNA_NN5 ''ACGT'' None = Inr (0, - 7.3) \<and>
   (1::nat) < length ''ACGT'' - 1 \<and>
   four_lookups DNA_NN5 [(''AC/TG'', (1, 2)), (''GT/GC'', (3, 4))]
     (neighbors_at ''ACGT'' ''TGTA'' 1) = None \<and>
   four_lookups DNA_NN5 [(''AC/TG'', (1, 2)), (''GT/GC'', (3, 4))]
     (neighbors_at ''ACGT'' ''TGTA'' 0) = Some (1, 2) \<and>
   neighbors_at ''ACGT'' ''TGTA'' 1 = ''CG/GT'' \<and>
   calculate_internal_mismatch ''ACGT'' ''TGTA'' DNA_NN5 [(''AC/TG'', (1, 2)), (''GT/GC'', (3, 4))]
     = Inl (ValueError (NoDataFound ''CG/GT'')) \<and>
   calculate_duplex_thermodynamics ''acgt'' (Some ''TGTA'') (Some 310.15) (Some DNA_NN5)
       (Some [(''AC/TG'', (1, 2)), (''GT/GC'', (3, 4))]) None None None ''Internal Mismatch'' True
     = Inl (ValueError (NoDataFound ''CG/GT''))"
proof -
  let ?imm = "[(''AC/TG'', (1, 2)), (''GT/GC'', (3, 4))] :: table"
  have i: "initialize_thermodynamics DNA_NN5 ''ACGT'' None = Inr (0, - 7.3)"
    by (simp add: eval_defs)
  have k: "neighbors_at ''ACGT'' ''TGTA'' 1 = ''CG/GT''"
    by (simp add: neighbors_at_def)
  have n: "four_lookups DNA_NN5 ?imm (neighbors_at ''ACGT'' ''TGTA'' 1) = None"
    by (simp add: neighbors_at_def four_lookups_def DNA_NN5_def)
  have p: "\<forall>j<1. four_lookups DNA_NN5 ?imm (neighbors_at ''ACGT'' ''TGTA'' j) \<noteq> None"
    by (simp add: neighbors_at_def four_lookups_def)
  have u: "upper ''acgt'' = ''ACGT''"
    by (simp add: upper_def upper_char_def)
  have l: "(1::nat) < length ''ACGT'' - 1" by simp
  from internal_mismatch_four_lookups [of DNA_NN5 ?imm "''CG/GT''" "''ACGT''" "''TGTA''" _
      "(0, - 7.3)" 1] i l n p k
  have f: "calculate_internal_mismatch ''ACGT'' ''TGTA'' DNA_NN5 ?imm
             = Inl (ValueError (NoDataFound ''CG/GT''))"
    by simp
  have ne: "''TGTA'' \<noteq> [] \<and> DNA_NN5 \<noteq> [] \<and> ?imm \<noteq> []"
    by (simp add: DNA_NN5_def)
  from internal_mismatch_four_lookups [of DNA_NN5 ?imm "''CG/GT''" "''acgt''" "''TGTA''" _
      "(0, - 7.3)" 1 "ValueError (NoDataFound ''CG/GT'')" "Some 310.15" None None None True] f u ne
  have "calculate_duplex_thermodynamics ''acgt'' (Some ''TGTA'') (Some 310.15) (Some DNA_NN5)
       (Some ?imm) None None None ''Internal Mismatch'' True
     = Inl (ValueError (NoDataFound ''CG/GT''))"
    by simp
  moreover have "four_lookups DNA_NN5 ?imm (neighbors_at ''ACGT'' ''TGTA'' 0) = Some (1, 2)"
    by (simp add: neighbors_at_def four_lookups_def)
  ultimately show ?thesis using i l n k f by simp
qed

subsection \<open>C5: the symmetry correction is counted once for a self-complementary strand\<close>

text \<open>
  Claim C5. The initiation corrector adds the table entry \<open>sym\<close> once when the
  primary strand equals the reverse of the complementary strand it compares with, and
  not at all otherwise: raising the entry by \<open>(dh, ds)\<close> raises the result by exactly
  \<open>(dh, ds)\<close> in the first case and leaves it unchanged in the second, where the entry
  is not even read. Every mode calls the corrector without a complementary strand, so
  the comparison is with the complement of the primary strand: in every mode of the
  engine, and whatever complementary strand was supplied, the result moves by
  \<open>(dh, ds)\<close> exactly when the upper-cased primary strand is its own reverse
  complement, and the free energy follows.
\<close>

theorem symmetry_correction_once:
  "(map_of nn_table ''sym'' = Some (sh, ss) \<and>
    initialize_thermodynamics nn_table seq c = Inr (h, s) \<longrightarrow>
      initialize_thermodynamics ((''sym'', (sh + dh, ss + ds)) # nn_table) seq c
        = (if seq = rev (effective_c_seq seq c) then Inr (h + dh, s + ds) else Inr (h, s))) \<and>
   (seq \<noteq> rev (effective_c_seq seq c) \<longrightarrow>
      initialize_thermodynamics ((''sym'', v) # nn_table) seq c
        = initialize_thermodynamics nn_table seq c) \<and>
   (map_of nn_table ''sym'' = Some (sh, ss) \<and>
    calculate_duplex_thermodynamics seq0 c0 T (Some nn_table) imm tmm de_dna de_rna
      calc_type strict = Inr (h', s', g') \<longrightarrow>
      calculate_duplex_thermodynamics seq0 c0 T (Some ((''sym'', (sh + dh, ss + ds)) # nn_table))
          imm tmm de_dna de_rna calc_type strict
        = (if self_complementary (upper seq0)
           then Inr (h' + dh, s' + ds, (h' + dh) - temperature_of T * ((s' + ds) / 1000))
           else Inr (h', s', g')))"
proof (intro conjI impI)
  assume "map_of nn_table ''sym'' = Some (sh, ss) \<and>
    initialize_thermodynamics nn_table seq c = Inr (h, s)"
  then show "initialize_thermodynamics ((''sym'', (sh + dh, ss + ds)) # nn_table) seq c
        = (if seq = rev (effective_c_seq seq c) then Inr (h + dh, s + ds) else Inr (h, s))"
    using initialize_perturb_sym by blast
next
  assume "seq \<noteq> rev (effective_c_seq seq c)"
  then show "initialize_thermodynamics ((''sym'', v) # nn_table) seq c
        = initialize_thermodynamics nn_table seq c"
    by (rule initialize_Cons_sym_unused)
next
  assume "map_of nn_table ''sym'' = Some (sh, ss) \<and>
    calculate_duplex_thermodynamics seq0 c0 T (Some nn_table) imm tmm de_dna de_rna
      calc_type strict = Inr (h', s', g')"
  then show "calculate_duplex_thermodynamics seq0 c0 T (Some ((''sym'', (sh + dh, ss + ds)) # nn_table))
          imm tmm de_dna de_rna calc_type strict
        = (if self_complementary (upper seq0)
           then Inr (h' + dh, s' + ds, (h' + dh) - temperature_of T * ((s' + ds) / 1000))
           else Inr (h', s', g'))"
    using engine_sym by blast
qed


theorem symmetry_correction_once_witness:
  "map_of DNA_NN5 ''sym'' = Some (0, - 1.4) \<and>
   initialize_thermodynamics DNA_NN5 ''ACGT'' None = Inr (0, - 7.3) \<and>
   ''ACGT'' = rev (effective_c_seq ''ACGT'' None) \<and>
   initialize_thermodynamics ((''sym'', (0 + 1, - 1.4 + 2)) # DNA_NN5) ''ACGT'' None
     = Inr (0 + 1, - 7.3 + 2) \<and>
   ''AC'' \<noteq> rev (effective_c_seq ''AC'' None) \<and>
   initialize_thermodynamics ((''sym'', (5, 5)) # DNA_NN5) ''AC'' None
     = initialize_thermodynamics DNA_NN5 ''AC'' None \<and>
   calculate_duplex_thermodynamics ''ACGT'' (Some ''TGGA'') (Some 310.15) (Some DNA_NN5)
       None None None None ''Matching'' True = Inr (- 8.6, - 30.3, 0.797545) \<and>
   self_complementary (upper ''ACGT'') \<and> ''ACGT'' \<noteq> rev ''TGGA'' \<and>
   calculate_duplex_thermodynamics ''ACGT'' (Some ''TGGA'') (Some 310.15)
       (Some ((''sym'', (0 + 1, - 1.4 + 2)) # DNA_NN5)) None None None None ''Matching'' True
     = Inr (- 8.6 + 1, - 30.3 + 2,
            (- 8.6 + 1) - temperature_of (Some 310.15) * ((- 30.3 + 2) / 1000))"
proof -
  have k: "map_of DNA_NN5 ''sym'' = Some (0, - 1.4)"
    by (simp add: DNA_NN5_def)
  have i: "initialize_thermodynamics DNA_NN5 ''ACGT'' None = Inr (0, - 7.3)"
    by (simp add: eval_defs)
  have p: "''ACGT'' = rev (effective_c_seq ''ACGT'' None)"
    by (simp add: effective_c_seq_def complement_def complement_base_def)
  have q: "''AC'' \<noteq> rev (effective_c_seq ''AC'' None)"
    by (simp add: effective_c_seq_def complement_def complement_base_def)
  have e: "calculate_duplex_thermodynamics ''ACGT'' (Some ''TGGA'') (Some 310.15) (Some DNA_NN5)
       None None None None ''Matching'' True = Inr (- 8.6, - 30.3, 0.797545)"
    by (simp add: eval_defs)
  have sc: "self_complementary (upper ''ACGT'')"
    by (simp add: self_complementary_def upper_def upper_char_def complement_def complement_base_def)
  have 1: "initialize_thermodynamics ((''sym'', (0 + 1, - 1.4 + 2)) # DNA_NN5) ''ACGT'' None
     = Inr (0 + 1, - 7.3 + 2)"
    using symmetry_correction_once [of DNA_NN5 0 "- 1.4" "''ACGT''" None 0 "- 7.3" 1 2] k i p
    by simp
  have 2: "initialize_thermodynamics ((''sym'', (5, 5)) # DNA_NN5) ''AC'' None
     = initialize_thermodynamics DNA_NN5 ''AC'' None"
    using symmetry_correction_once [of DNA_NN5 _ _ "''AC''" None _ _ _ _ "(5, 5)"] q
    by blast
  have 3: "calculate_duplex_thermodynamics ''ACGT'' (Some ''TGGA'') (Some 310.15)
       (Some ((''sym'', (0 + 1, - 1.4 + 2)) # DNA_NN5)) None None None None ''Matching'' True
     = Inr (- 8.6 + 1, - 30.3 + 2,
            (- 8.6 + 1) - temperature_of (Some 310.15) * ((- 30.3 + 2) / 1000))"
    using symmetry_correction_once [of DNA_NN5 0 "- 1.4" _ _ _ _ 1 2 _ "''ACGT''" "Some ''TGGA''"
        "Some 310.15" None None None None "''Matching''" True "- 8.6" "- 30.3" "0.797545"] k e sc
    by simp
  have r: "''ACGT'' \<noteq> rev ''TGGA''" by simp
  from k i p 1 q 2 e sc r 3 show ?thesis by blast
qed

subsection \<open>C6: the 5'-T / 3'-A penalty is counted once per condition\<close>

text \<open>
  Claim C6. The initiation corrector adds the table entry \<open>init_5T/A\<close> once when the
  strand begins with T and once more when it ends with A, the two conditions being
  checked independently. Stated through the result: raising the entry by \<open>(dh, ds)\<close>
  raises the result by \<open>(dh, ds)\<close> times the number of conditions met, which is 2 for
  a strand that begins with T and ends with A, 1 when exactly one condition holds, and
  0 when none does; in the last case the entry is not read at all.
\<close>

theorem terminal_penalty_additive:
  "(map_of nn_table ''init_5T/A'' = Some (th, ts) \<and>
    initialize_thermodynamics nn_table seq c = Inr (h, s) \<longrightarrow>
      initialize_thermodynamics ((''init_5T/A'', (th + dh, ts + ds)) # nn_table) seq c
        = Inr (h + real (penalty_count seq) * dh, s + real (penalty_count seq) * ds)) \<and>
   (penalty_count seq = 0 \<longrightarrow>
      initialize_thermodynamics ((''init_5T/A'', v) # nn_table) seq c
        = initialize_thermodynamics nn_table seq c) \<and>
   (startswith seq ''T'' \<and> endswith seq ''A'' \<longrightarrow> penalty_count seq = 2) \<and>
   (startswith seq ''T'' \<and> \<not> endswith seq ''A'' \<longrightarrow> penalty_count seq = 1) \<and>
   (\<not> startswith seq ''T'' \<and> endswith seq ''A'' \<longrightarrow> penalty_count seq = 1) \<and>
   (\<not> startswith seq ''T'' \<and> \<not> endswith seq ''A'' \<longrightarrow> penalty_count seq = 0)"
  using initialize_perturb_penalty [of nn_table th ts seq c h s dh ds]
    initialize_Cons_penalty_unused [of seq v nn_table c]
  by (simp add: penalty_count_def)

theorem terminal_penalty_additive_witness:
  "map_of DNA_NN5 ''init_5T/A'' = Some (0.4, 0) \<and>
   initialize_thermodynamics DNA_NN5 ''TA'' None = Inr (0.8, - 10.4) \<and>
   startswith ''TA'' ''T'' \<and> endswith ''TA'' ''A'' \<and> penalty_count ''TA'' = 2 \<and>
   initialize_thermodynamics ((''init_5T/A'', (0.4 + 1, 0 + 3)) # DNA_NN5) ''TA'' None
     = Inr (0.8 + real (penalty_count ''TA'') * 1, - 10.4 + real (penalty_count ''TA'') * 3) \<and>
   penalty_count ''GC'' = 0 \<and>
   initialize_thermodynamics ((''init_5T/A'', (7, 7)) # DNA_NN5) ''GC'' None
     = initialize_thermodynamics DNA_NN5 ''GC'' None"
proof -
  have k: "map_of DNA_NN5 ''init_5T/A'' = Some (0.4, 0)"
    by (simp add: DNA_NN5_def)
  have i: "initialize_thermodynamics DNA_NN5 ''TA'' None = Inr (0.8, - 10.4)"
    by (simp add: eval_defs)
  have b: "startswith ''TA'' ''T'' \<and> endswith ''TA'' ''A''"
    by (simp add: startswith_def endswith_def)
  have z: "\<not> startswith ''GC'' ''T'' \<and> \<not> endswith ''GC'' ''A''"
    by (simp add: startswith_def endswith_def)
  from terminal_penalty_additive [of DNA_NN5 "0.4" 0 "''TA''" None "0.8" "- 10.4" 1 3] k i b
  have 1: "penalty_count ''TA'' = 2 \<and>
     initialize_thermodynamics ((''init_5T/A'', (0.4 + 1, 0 + 3)) # DNA_NN5) ''TA'' None
       = Inr (0.8 + real (penalty_count ''TA'') * 1, - 10.4 + real (penalty_count ''TA'') * 3)"
    by blast
  from terminal_penalty_additive [of DNA_NN5 _ _ "''GC''" None _ _ _ _ "(7, 7)"] z
  have 2: "penalty_count ''GC'' = 0 \<and>
     initialize_thermodynamics ((''init_5T/A'', (7, 7)) # DNA_NN5) ''GC'' None
       = initialize_thermodynamics DNA_NN5 ''GC'' None"
    by blast
  from k i b 1 2 show ?thesis by blast
qed

subsection \<open>C7: the stacking lookup tries both orientations\<close>

text \<open>
  Claim C7, as amended. A stacking key absent from the table is looked up again fully
  reversed before it counts as missing (and then contributes zero in the lenient
  modes). \<open>calculate_matching\<close> adds to the initiation correction, from left to
  right, one term per adjacent pair of positions of the primary strand. For two
  strands of equal length and a table in which no key of the duplex is present in both
  orientations with different values, the terms of the duplex read with both strands
  reversed and their roles exchanged are the terms of the original duplex in reverse
  order: the two readings add the same numbers, in opposite orders. The program adds
  them as floating-point numbers, so its two sums agree up to the rounding that the
  order of addition causes; the statement is about the terms and holds whatever the
  arithmetic.
\<close>

theorem stacking_terms_undirected:
  "get_either t k =
     (case map_of t k of Some v \<Rightarrow> v
      | None \<Rightarrow> (case map_of t (rev k) of Some v \<Rightarrow> v | None \<Rightarrow> (0, 0))) \<and>
   calculate_matching seq c_seq t =
     bind (initialize_thermodynamics t seq None)
       (\<lambda>d0. Inr (foldl add_thermo d0 (stacking_terms t seq c_seq))) \<and>
   (length seq = length c_seq \<and>
    (\<forall>i < length seq - 1. orientation_consistent t (neighbors_at seq c_seq i)) \<longrightarrow>
      stacking_terms t (rev c_seq) (rev seq) = rev (stacking_terms t seq c_seq) \<and>
      calculate_matching (rev c_seq) (rev seq) t =
        bind (initialize_thermodynamics t (rev c_seq) None)
          (\<lambda>d0. Inr (foldl add_thermo d0 (rev (stacking_terms t seq c_seq)))))"
proof (intro conjI impI)
  show "get_either t k =
     (case map_of t k of Some v \<Rightarrow> v
      | None \<Rightarrow> (case map_of t (rev k) of Some v \<Rightarrow> v | None \<Rightarrow> (0, 0)))"
    by (rule get_either_cases)
next
  show "calculate_matching seq c_seq t =
     bind (initialize_thermodynamics t seq None)
       (\<lambda>d0. Inr (foldl add_thermo d0 (stacking_terms t seq c_seq)))"
    by (rule calculate_matching_terms)
next
  assume a: "length seq = length c_seq \<and>
    (\<forall>i < length seq - 1. orientation_consistent t (neighbors_at seq c_seq i))"
  then have len: "length seq = length c_seq"
    and cons: "\<forall>i < length seq - 1. orientation_consistent t (neighbors_at seq c_seq i)"
    by simp_all
  show r: "stacking_terms t (rev c_seq) (rev seq) = rev (stacking_terms t seq c_seq)"
    using len cons by (rule stacking_terms_rev)
  show "calculate_matching (rev c_seq) (rev seq) t =
        bind (initialize_thermodynamics t (rev c_seq) None)
          (\<lambda>d0. Inr (foldl add_thermo d0 (rev (stacking_terms t seq c_seq))))"
    by (simp only: calculate_matching_terms r)
qed

theorem stacking_terms_undirected_witness:
  "length ''CAA'' = length ''GTT'' \<and>
   length ''CAA'' - 1 = 2 \<and>
   orientation_consistent DNA_NN5 (neighbors_at ''CAA'' ''GTT'' 0) \<and>
   orientation_consistent DNA_NN5 (neighbors_at ''CAA'' ''GTT'' 1) \<and>
   stacking_terms DNA_NN5 ''CAA'' ''GTT'' = [(- 7.4, - 19.3), (- 8.4, - 23.6)] \<and>
   stacking_terms DNA_NN5 (rev ''GTT'') (rev ''CAA'') = [(- 8.4, - 23.6), (- 7.4, - 19.3)] \<and>
   stacking_terms DNA_NN5 (rev ''GTT'') (rev ''CAA'') = rev (stacking_terms DNA_NN5 ''CAA'' ''GTT'') \<and>
   calculate_matching ''CAA'' ''GTT'' DNA_NN5
     = Inr (foldl add_thermo (0.4, - 5.9) [(- 7.4, - 19.3), (- 8.4, - 23.6)]) \<and>
   calculate_matching (rev ''GTT'') (rev ''CAA'') DNA_NN5
     = Inr (foldl add_thermo (0.4, - 5.9) [(- 8.4, - 23.6), (- 7.4, - 19.3)])"
proof -
  have l: "length ''CAA'' = length ''GTT''" by simp
  have c: "\<forall>i < length ''CAA'' - 1. orientation_consistent DNA_NN5 (neighbors_at ''CAA'' ''GTT'' i)"
    by (simp add: orientation_consistent_def neighbors_at_def DNA_NN5_def numeral_2_eq_2
          less_Suc_eq)
  have c': "length ''CAA'' - 1 = 2 \<and>
     orientation_consistent DNA_NN5 (neighbors_at ''CAA'' ''GTT'' 0) \<and>
     orientation_consistent DNA_NN5 (neighbors_at ''CAA'' ''GTT'' 1)"
    using c by simp
  have v: "stacking_terms DNA_NN5 ''CAA'' ''GTT'' = [(- 7.4, - 19.3), (- 8.4, - 23.6)]"
    by (simp add: stacking_terms_def neighbors_at_def get_either_def get_default_def DNA_NN5_def
          upt_conv_Cons)
  have i: "initialize_thermodynamics DNA_NN5 ''CAA'' None = Inr (0.4, - 5.9)"
    by (simp add: eval_defs)
  from stacking_terms_undirected [of DNA_NN5 "''CA/GT''" "''CAA''" "''GTT''"] l c
  have r: "stacking_terms DNA_NN5 (rev ''GTT'') (rev ''CAA'') = rev (stacking_terms DNA_NN5 ''CAA'' ''GTT'')"
    and m: "calculate_matching ''CAA'' ''GTT'' DNA_NN5 =
     bind (initialize_thermodynamics DNA_NN5 ''CAA'' None)
       (\<lambda>d0. Inr (foldl add_thermo d0 (stacking_terms DNA_NN5 ''CAA'' ''GTT'')))"
    and n: "calculate_matching (rev ''GTT'') (rev ''CAA'') DNA_NN5 =
     bind (initialize_thermodynamics DNA_NN5 (rev ''GTT'') None)
       (\<lambda>d0. Inr (foldl add_thermo d0 (rev (stacking_terms DNA_NN5 ''CAA'' ''GTT''))))"
    by blast+
  have j: "initialize_thermodynamics DNA_NN5 (rev ''GTT'') None = Inr (0.4, - 5.9)"
    by (simp add: eval_defs)
  have n': "calculate_matching (rev ''GTT'') (rev ''CAA'') DNA_NN5
     = Inr (foldl add_thermo (0.4, - 5.9) [(- 8.4, - 23.6), (- 7.4, - 19.3)])"
    unfolding n j v by (simp add: bind_Inr)
  have r': "stacking_terms DNA_NN5 (rev ''GTT'') (rev ''CAA'') = [(- 8.4, - 23.6), (- 7.4, - 19.3)]"
    unfolding r v by simp
  have m': "calculate_matching ''CAA'' ''GTT'' DNA_NN5
     = Inr (foldl add_thermo (0.4, - 5.9) [(- 7.4, - 19.3), (- 8.4, - 23.6)])"
    unfolding m i v by (simp only: bind_Inr)
  from l c' v r' r m' n' show ?thesis by blast
qed

text \<open>
  The claim as stated fails in two ways. A table may hold a key in both orientations
  with different values: the direct lookup wins, so the duplex \<open>"AC"\<close> over
  \<open>"TG"\<close> is given the value of \<open>"AC/TG"\<close> and the same duplex read from the
  other strand the value of \<open>"GT/CA"\<close>. And the strands may differ in length: the
  loop runs over the positions of the primary strand, so \<open>"AAC"\<close> over \<open>"TT"\<close>
  is given two terms and its reversed, role-swapped reading \<open>"TT"\<close> over
  \<open>"CAA"\<close> one term, under another key. In the two tables written out below every
  initiation term is zero and every key that is read is present, in one orientation
  only in the second table; the last two lines are the sums of the stacking loop for
  \<open>"AAC"\<close> over \<open>"TT"\<close> with the table of the notebook.
\<close>

theorem stacking_terms_undirected_counterexample:
  "calculate_matching ''AC'' ''TG''
     [(''init'', (0, 0)), (''init_A/T'', (0, 0)), (''init_G/C'', (0, 0)),
      (''init_oneG/C'', (0, 0)), (''init_allA/T'', (0, 0)), (''init_5T/A'', (0, 0)),
      (''sym'', (0, 0)), (''AC/TG'', (1, 0)), (''GT/CA'', (2, 0))]
     = Inr (1, 0) \<and>
   calculate_matching (rev ''TG'') (rev ''AC'')
     [(''init'', (0, 0)), (''init_A/T'', (0, 0)), (''init_G/C'', (0, 0)),
      (''init_oneG/C'', (0, 0)), (''init_allA/T'', (0, 0)), (''init_5T/A'', (0, 0)),
      (''sym'', (0, 0)), (''AC/TG'', (1, 0)), (''GT/CA'', (2, 0))]
     = Inr (2, 0) \<and>
   nn_loop [(''AC/TG'', (1, 0)), (''GT/CA'', (2, 0))] ''AC'' ''TG'' [0 ..< length ''AC'' - 1] (0, 0)
     = (1, 0) \<and>
   nn_loop [(''AC/TG'', (1, 0)), (''GT/CA'', (2, 0))] (rev ''TG'') (rev ''AC'')
       [0 ..< length (rev ''TG'') - 1] (0, 0)
     = (2, 0) \<and>
   calculate_matching ''AAC'' ''TT''
     [(''init'', (0, 0)), (''init_A/T'', (0, 0)), (''init_G/C'', (0, 0)),
      (''init_oneG/C'', (0, 0)), (''init_allA/T'', (0, 0)), (''init_5T/A'', (0, 0)),
      (''sym'', (0, 0)), (''AA/TT'', (1, 0)), (''AC/T'', (2, 0)), (''TT/CA'', (4, 0))]
     = Inr (3, 0) \<and>
   calculate_matching (rev ''TT'') (rev ''AAC'')
     [(''init'', (0, 0)), (''init_A/T'', (0, 0)), (''init_G/C'', (0, 0)),
      (''init_oneG/C'', (0, 0)), (''init_allA/T'', (0, 0)), (''init_5T/A'', (0, 0)),
      (''sym'', (0, 0)), (''AA/TT'', (1, 0)), (''AC/T'', (2, 0)), (''TT/CA'', (4, 0))]
     = Inr (4, 0) \<and>
   nn_loop DNA_NN5 ''AAC'' ''TT'' [0 ..< length ''AAC'' - 1] (0, 0) = (- 8.4, - 23.6) \<and>
   nn_loop DNA_NN5 (rev ''TT'') (rev ''AAC'') [0 ..< length (rev ''TT'') - 1] (0, 0) = (0, 0)"
  by (simp add: eval_defs)

subsection \<open>C8: what the engine normalises\<close>




subsection \<open>C9: the temperature default of the engine\<close>

text \<open>
  Claim C9, as amended. The engine has a default temperature: a call that leaves the
  temperature out is evaluated at 310.15 K, exactly as if the caller had supplied
  that value; a temperature that the caller supplies is the one used in the free
  energy.
\<close>

theorem temperature_default_or_supplied:
  "calculate_duplex_thermodynamics seq c None nn imm tmm de_dna de_rna calc_type strict
     = calculate_duplex_thermodynamics seq c (Some 310.15) nn imm tmm de_dna de_rna calc_type strict \<and>
   (calculate_duplex_thermodynamics seq c (Some T) nn imm tmm de_dna de_rna calc_type strict
      = Inr (dH, dS, dG) \<longrightarrow> dG = dH - T * (dS / 1000))"
proof
  show "calculate_duplex_thermodynamics seq c None nn imm tmm de_dna de_rna calc_type strict
     = calculate_duplex_thermodynamics seq c (Some 310.15) nn imm tmm de_dna de_rna calc_type strict"
    by (simp add: calculate_duplex_thermodynamics_def temperature_of_def default_temperature_def)
  show "calculate_duplex_thermodynamics seq c (Some T) nn imm tmm de_dna de_rna calc_type strict
      = Inr (dH, dS, dG) \<longrightarrow> dG = dH - T * (dS / 1000)"
    unfolding calculate_duplex_thermodynamics_def Let_def
    by (auto simp: bind_Inr_iff temperature_of_def split: if_splits)
qed

theorem temperature_default_or_supplied_witness:
  "calculate_duplex_thermodynamics ''GCGC'' None (Some 300) (Some DNA_NN5) None None None None
      ''Matching'' True = Inr (- 32.3, - 89.6, - 5.42) \<and>
   (- 5.42 :: real) = - 32.3 - 300 * (- 89.6 / 1000)"
proof -
  have r: "calculate_duplex_thermodynamics ''GCGC'' None (Some 300) (Some DNA_NN5) None None None
      None ''Matching'' True = Inr (- 32.3, - 89.6, - 5.42)"
    by (simp add: eval_defs)
  from temperature_default_or_supplied [of "''GCGC''" None "Some DNA_NN5" None None None None
      "''Matching''" True 300 "- 32.3" "- 89.6" "- 5.42"] r
  show ?thesis by blast
qed

text \<open>
  The claim as stated fails: a call without a temperature is evaluated, and its free
  energy is computed with 310.15 K.
\<close>

theorem default_temperature_counterexample:
  "calculate_duplex_thermodynamics ''GCGC'' None None (Some DNA_NN5) None None None None
      ''Matching'' True
     = Inr (- 32.3, - 89.6, - 32.3 - 310.15 * (- 89.6 / 1000))"
  by (simp add: eval_defs)

subsection \<open>C10: dangling-end keys are looked up directly, and leniently\<close>

text \<open>
  Claim C10. In Dangling-End mode, once the shift is resolved and the initiation
  correction computed, the result is that correction, plus the value that the
  dangling-end table holds under the key of the 5' end and under the key of the 3' end
  (each key looked up as built, an absent key adding zero), plus the stacking terms of
  the aligned core, whose keys are read off the strands after one position has been
  consumed at each end that carries a gap. This is the result without the strict flag,
  and with it when the base table holds every key of the core in one of the two
  orientations; with the flag, the first key of the core that the base table holds in
  neither orientation is reported as missing data. Hence the result depends on the
  dangling-end table only through the two keys built for the ends: tables that agree on
  them give the same result, so an entry under any other key, the reversed key
  included, changes nothing, and a dangling-end key absent from the table gives the
  result of the empty dangling-end table, with the strict flag set or not. The strict
  flag only decides what happens to a stacking key of the core: without the flag no
  missing-data error is ever raised, a result obtained with the flag is obtained
  without it, and an error raised with the flag either names such a key of the base
  table or is raised without the flag as well.
\<close>

theorem dangling_end_keys_direct_only:
  "(determine_shift seq c_seq = Inr k \<and> initialize_thermodynamics nn_table seq None = Inr d0 \<and>
    (strict \<longrightarrow> (\<forall>ck \<in> set (core_keys k seq c_seq).
                  has_key nn_table ck \<or> has_key nn_table (rev ck))) \<longrightarrow>
      calculate_dangling_end seq c_seq nn_table de strict
        = Inr (foldl add_thermo
                 (foldl add_thermo d0
                    (map (\<lambda>dk. get_default de dk (0, 0)) (de_keys k seq c_seq)))
                 (map (get_either nn_table) (core_keys k seq c_seq)))) \<and>
   (determine_shift seq c_seq = Inr k \<and> initialize_thermodynamics nn_table seq None = Inr d0 \<and>
    n < length (core_keys k seq c_seq) \<and>
    (\<forall>j < n. has_key nn_table (core_keys k seq c_seq ! j) \<or>
             has_key nn_table (rev (core_keys k seq c_seq ! j))) \<and>
    \<not> has_key nn_table (core_keys k seq c_seq ! n) \<and>
    \<not> has_key nn_table (rev (core_keys k seq c_seq ! n)) \<longrightarrow>
      calculate_dangling_end seq c_seq nn_table de True
        = Inl (ValueError (MissingData (core_keys k seq c_seq ! n)))) \<and>
   (determine_shift seq c_seq = Inr k \<and>
    (\<forall>key \<in> set (de_keys k seq c_seq). map_of de key = map_of de' key) \<longrightarrow>
      calculate_dangling_end seq c_seq nn_table de strict
        = calculate_dangling_end seq c_seq nn_table de' strict) \<and>
   (determine_shift seq c_seq = Inr k \<and> other \<notin> set (de_keys k seq c_seq) \<longrightarrow>
      calculate_dangling_end seq c_seq nn_table ((other, v) # de) strict
        = calculate_dangling_end seq c_seq nn_table de strict) \<and>
   (determine_shift seq c_seq = Inr k \<and>
    (\<forall>key \<in> set (de_keys k seq c_seq). \<not> has_key de key) \<longrightarrow>
      calculate_dangling_end seq c_seq nn_table de strict
        = calculate_dangling_end seq c_seq nn_table [] strict) \<and>
   calculate_dangling_end seq c_seq nn_table de False \<noteq> Inl (ValueError (MissingData key)) \<and>
   (calculate_dangling_end seq c_seq nn_table de True = Inr r \<longrightarrow>
      calculate_dangling_end seq c_seq nn_table de False = Inr r) \<and>
   (calculate_dangling_end seq c_seq nn_table de True = Inl e \<longrightarrow>
      (\<exists>key. e = ValueError (MissingData key) \<and> \<not> has_key nn_table key \<and>
             \<not> has_key nn_table (rev key)) \<or>
      calculate_dangling_end seq c_seq nn_table de False = Inl e)"
proof (intro conjI impI)
  assume a: "determine_shift seq c_seq = Inr k \<and> initialize_thermodynamics nn_table seq None = Inr d0 \<and>
    (strict \<longrightarrow> (\<forall>ck \<in> set (core_keys k seq c_seq).
                  has_key nn_table ck \<or> has_key nn_table (rev ck)))"
  then have k: "determine_shift seq c_seq = Inr k"
    and i: "initialize_thermodynamics nn_table seq None = Inr d0"
    and f: "strict \<longrightarrow> (\<forall>ck \<in> set (core_keys k seq c_seq).
                  has_key nn_table ck \<or> has_key nn_table (rev ck))"
    by blast+
  show "calculate_dangling_end seq c_seq nn_table de strict
        = Inr (foldl add_thermo
                 (foldl add_thermo d0
                    (map (\<lambda>dk. get_default de dk (0, 0)) (de_keys k seq c_seq)))
                 (map (get_either nn_table) (core_keys k seq c_seq)))"
    using k i f by (rule calculate_dangling_end_sum)
next
  assume a: "determine_shift seq c_seq = Inr k \<and> initialize_thermodynamics nn_table seq None = Inr d0 \<and>
    n < length (core_keys k seq c_seq) \<and>
    (\<forall>j < n. has_key nn_table (core_keys k seq c_seq ! j) \<or>
             has_key nn_table (rev (core_keys k seq c_seq ! j))) \<and>
    \<not> has_key nn_table (core_keys k seq c_seq ! n) \<and>
    \<not> has_key nn_table (rev (core_keys k seq c_seq ! n))"
  then have k: "determine_shift seq c_seq = Inr k"
    and i: "initialize_thermodynamics nn_table seq None = Inr d0"
    and n: "n < length (core_keys k seq c_seq)"
    and p: "\<forall>j < n. has_key nn_table (core_keys k seq c_seq ! j) \<or>
             has_key nn_table (rev (core_keys k seq c_seq ! j))"
    and m: "\<not> has_key nn_table (core_keys k seq c_seq ! n)"
       "\<not> has_key nn_table (rev (core_keys k seq c_seq ! n))"
    by blast+
  show "calculate_dangling_end seq c_seq nn_table de True
        = Inl (ValueError (MissingData (core_keys k seq c_seq ! n)))"
    using k i n p m by (rule calculate_dangling_end_missing)
next
  assume "determine_shift seq c_seq = Inr k \<and>
    (\<forall>key \<in> set (de_keys k seq c_seq). map_of de key = map_of de' key)"
  then show "calculate_dangling_end seq c_seq nn_table de strict
        = calculate_dangling_end seq c_seq nn_table de' strict"
    using dangling_end_table_cong by blast
next
  assume a: "determine_shift seq c_seq = Inr k \<and> other \<notin> set (de_keys k seq c_seq)"
  then have "\<forall>key \<in> set (de_keys k seq c_seq). map_of ((other, v) # de) key = map_of de key"
    by auto
  with a show "calculate_dangling_end seq c_seq nn_table ((other, v) # de) strict
        = calculate_dangling_end seq c_seq nn_table de strict"
    using dangling_end_table_cong by blast
next
  assume a: "determine_shift seq c_seq = Inr k \<and>
    (\<forall>key \<in> set (de_keys k seq c_seq). \<not> has_key de key)"
  then have "\<forall>key \<in> set (de_keys k seq c_seq). map_of de key = map_of [] key"
    by (simp add: has_key_def del: not_None_eq)
  with a show "calculate_dangling_end seq c_seq nn_table de strict
        = calculate_dangling_end seq c_seq nn_table [] strict"
    using dangling_end_table_cong by blast
next
  show "calculate_dangling_end seq c_seq nn_table de False \<noteq> Inl (ValueError (MissingData key))"
    by (rule dangling_end_strictness(1))
next
  assume "calculate_dangling_end seq c_seq nn_table de True = Inr r"
  then show "calculate_dangling_end seq c_seq nn_table de False = Inr r"
    by (rule dangling_end_strictness(2))
next
  assume "calculate_dangling_end seq c_seq nn_table de True = Inl e"
  then show "(\<exists>key. e = ValueError (MissingData key) \<and> \<not> has_key nn_table key \<and>
             \<not> has_key nn_table (rev key)) \<or>
      calculate_dangling_end seq c_seq nn_table de False = Inl e"
    by (rule dangling_end_strictness(3))
qed

theorem dangling_end_keys_direct_only_witness:
  "determine_shift ''ACGT'' ''TTGCA'' = Inr 1 \<and>
   initialize_thermodynamics DNA_NN5 ''ACGT'' None = Inr (0, - 7.3) \<and>
   de_keys 1 ''ACGT'' ''TTGCA'' = [''.A/TT''] \<and>
   core_keys 1 ''ACGT'' ''TTGCA'' = [''AC/TG'', ''CG/GC'', ''GT/CA''] \<and>
   calculate_dangling_end ''ACGT'' ''TTGCA'' DNA_NN5 [(''.A/TT'', (1, 2))] True
     = Inr (- 26.3, - 76.8) \<and>
   \<not> has_key [(rev ''.A/TT'', (1, 2))] ''.A/TT'' \<and>
   calculate_dangling_end ''ACGT'' ''TTGCA'' DNA_NN5 [(rev ''.A/TT'', (1, 2))] True
     = calculate_dangling_end ''ACGT'' ''TTGCA'' DNA_NN5 [] True \<and>
   calculate_dangling_end ''ACGT'' ''TTGCA'' DNA_NN5 [] True = Inr (- 27.3, - 78.8) \<and>
   determine_shift ''ACG'' ''TGCA'' = Inr 0 \<and>
   initialize_thermodynamics DNA_NN5 ''ACG'' None = Inr (0, - 5.9) \<and>
   de_keys 0 ''ACG'' ''TGCA'' = [''AC/.G''] \<and>
   core_keys 0 ''ACG'' ''TGCA'' = [''AC/TG'', ''CG/GC''] \<and>
   calculate_dangling_end ''ACG'' ''TGCA'' DNA_NN5 [(''AC/.G'', (1, 2))] True
     = Inr (- 17.7, - 52.4) \<and>
   calculate_dangling_end ''ACG'' ''TGCA'' DNA_NN5 [] True = Inr (- 18.7, - 54.4) \<and>
   determine_shift ''ACG'' ''TTGCA'' = Inr 1 \<and>
   de_keys 1 ''ACG'' ''TTGCA'' = [''.A/TT'', ''AC/.G''] \<and>
   core_keys 1 ''ACG'' ''TTGCA'' = [''AC/TG'', ''CG/GC''] \<and>
   calculate_dangling_end ''ACG'' ''TTGCA'' DNA_NN5 [(''.A/TT'', (1, 2)), (''AC/.G'', (10, 20))] True
     = Inr (- 7.7, - 32.4) \<and>
   determine_shift ''ACGT'' ''TTTGCA'' = Inr 2 \<and>
   core_keys 2 ''ACGT'' ''TTTGCA'' = [''.A/TT'', ''AC/TG'', ''CG/GC'', ''GT/CA''] \<and>
   \<not> has_key DNA_NN5 ''.A/TT'' \<and> \<not> has_key DNA_NN5 (rev ''.A/TT'') \<and>
   calculate_dangling_end ''ACGT'' ''TTTGCA'' DNA_NN5 [] True
     = Inl (ValueError (MissingData ''.A/TT'')) \<and>
   calculate_dangling_end ''ACGT'' ''TTTGCA'' DNA_NN5 [] False = Inr (- 27.3, - 78.8)"
proof -
  note sh = determine_shift_def upper_def upper_char_def complement_def complement_base_def
    upt_conv_Cons
  note tm = add_thermo_def get_default_def get_either_def DNA_NN5_def
  have k1: "determine_shift ''ACGT'' ''TTGCA'' = Inr 1" by (simp add: sh)
  have i1: "initialize_thermodynamics DNA_NN5 ''ACGT'' None = Inr (0, - 7.3)"
    by (simp add: eval_defs)
  have d1: "de_keys 1 ''ACGT'' ''TTGCA'' = [''.A/TT'']" by (simp add: eval_core_defs)
  have c1: "core_keys 1 ''ACGT'' ''TTGCA'' = [''AC/TG'', ''CG/GC'', ''GT/CA'']"
    by (simp add: eval_core_defs)
  have f1: "\<forall>ck \<in> set (core_keys 1 ''ACGT'' ''TTGCA''). has_key DNA_NN5 ck \<or> has_key DNA_NN5 (rev ck)"
    by (simp add: c1 has_key_def DNA_NN5_def)
  from dangling_end_keys_direct_only [of "''ACGT''" "''TTGCA''" 1 DNA_NN5 "(0, - 7.3)" True
      "[(''.A/TT'', (1, 2))]"] k1 i1 f1
  have "calculate_dangling_end ''ACGT'' ''TTGCA'' DNA_NN5 [(''.A/TT'', (1, 2))] True
        = Inr (foldl add_thermo
                 (foldl add_thermo (0, - 7.3)
                    (map (\<lambda>dk. get_default [(''.A/TT'', (1, 2))] dk (0, 0))
                       (de_keys 1 ''ACGT'' ''TTGCA'')))
                 (map (get_either DNA_NN5) (core_keys 1 ''ACGT'' ''TTGCA'')))"
    by blast
  then have r1: "calculate_dangling_end ''ACGT'' ''TTGCA'' DNA_NN5 [(''.A/TT'', (1, 2))] True
     = Inr (- 26.3, - 76.8)"
    by (simp add: d1 c1 tm)
  have nk': "\<not> has_key [(rev ''.A/TT'', (1, 2))] ''.A/TT''"
    by (simp add: has_key_def)
  have nk: "\<forall>key \<in> set (de_keys 1 ''ACGT'' ''TTGCA''). \<not> has_key [(rev ''.A/TT'', (1, 2))] key"
    by (simp add: d1 has_key_def)
  from dangling_end_keys_direct_only [of "''ACGT''" "''TTGCA''" 1 DNA_NN5 _ True
      "[(rev ''.A/TT'', (1, 2))]"] k1 nk
  have e1: "calculate_dangling_end ''ACGT'' ''TTGCA'' DNA_NN5 [(rev ''.A/TT'', (1, 2))] True
     = calculate_dangling_end ''ACGT'' ''TTGCA'' DNA_NN5 [] True"
    by blast
  from dangling_end_keys_direct_only [of "''ACGT''" "''TTGCA''" 1 DNA_NN5 "(0, - 7.3)" True "[]"]
    k1 i1 f1
  have "calculate_dangling_end ''ACGT'' ''TTGCA'' DNA_NN5 [] True
        = Inr (foldl add_thermo
                 (foldl add_thermo (0, - 7.3)
                    (map (\<lambda>dk. get_default [] dk (0, 0)) (de_keys 1 ''ACGT'' ''TTGCA'')))
                 (map (get_either DNA_NN5) (core_keys 1 ''ACGT'' ''TTGCA'')))"
    by blast
  then have v1: "calculate_dangling_end ''ACGT'' ''TTGCA'' DNA_NN5 [] True = Inr (- 27.3, - 78.8)"
    by (simp add: d1 c1 tm)
  have k2: "determine_shift ''ACG'' ''TGCA'' = Inr 0" by (simp add: sh)
  have i2: "initialize_thermodynamics DNA_NN5 ''ACG'' None = Inr (0, - 5.9)"
    by (simp add: eval_defs)
  have d2: "de_keys 0 ''ACG'' ''TGCA'' = [''AC/.G'']" by (simp add: eval_core_defs)
  have c2: "core_keys 0 ''ACG'' ''TGCA'' = [''AC/TG'', ''CG/GC'']"
    by (simp add: eval_core_defs)
  have f2: "\<forall>ck \<in> set (core_keys 0 ''ACG'' ''TGCA''). has_key DNA_NN5 ck \<or> has_key DNA_NN5 (rev ck)"
    by (simp add: c2 has_key_def DNA_NN5_def)
  from dangling_end_keys_direct_only [of "''ACG''" "''TGCA''" 0 DNA_NN5 "(0, - 5.9)" True
      "[(''AC/.G'', (1, 2))]"] k2 i2 f2
  have "calculate_dangling_end ''ACG'' ''TGCA'' DNA_NN5 [(''AC/.G'', (1, 2))] True
        = Inr (foldl add_thermo
                 (foldl add_thermo (0, - 5.9)
                    (map (\<lambda>dk. get_default [(''AC/.G'', (1, 2))] dk (0, 0))
                       (de_keys 0 ''ACG'' ''TGCA'')))
                 (map (get_either DNA_NN5) (core_keys 0 ''ACG'' ''TGCA'')))"
    by blast
  then have r2: "calculate_dangling_end ''ACG'' ''TGCA'' DNA_NN5 [(''AC/.G'', (1, 2))] True
     = Inr (- 17.7, - 52.4)"
    by (simp add: d2 c2 tm)
  from dangling_end_keys_direct_only [of "''ACG''" "''TGCA''" 0 DNA_NN5 "(0, - 5.9)" True "[]"]
    k2 i2 f2
  have "calculate_dangling_end ''ACG'' ''TGCA'' DNA_NN5 [] True
        = Inr (foldl add_thermo
                 (foldl add_thermo (0, - 5.9)
                    (map (\<lambda>dk. get_default [] dk (0, 0)) (de_keys 0 ''ACG'' ''TGCA'')))
                 (map (get_either DNA_NN5) (core_keys 0 ''ACG'' ''TGCA'')))"
    by blast
  then have v2: "calculate_dangling_end ''ACG'' ''TGCA'' DNA_NN5 [] True = Inr (- 18.7, - 54.4)"
    by (simp add: d2 c2 tm)
  have k3: "determine_shift ''ACG'' ''TTGCA'' = Inr 1" by (simp add: sh)
  have d3: "de_keys 1 ''ACG'' ''TTGCA'' = [''.A/TT'', ''AC/.G'']" by (simp add: eval_core_defs)
  have c3: "core_keys 1 ''ACG'' ''TTGCA'' = [''AC/TG'', ''CG/GC'']"
    by (simp add: eval_core_defs)
  have f3: "\<forall>ck \<in> set (core_keys 1 ''ACG'' ''TTGCA''). has_key DNA_NN5 ck \<or> has_key DNA_NN5 (rev ck)"
    by (simp add: c3 has_key_def DNA_NN5_def)
  from dangling_end_keys_direct_only [of "''ACG''" "''TTGCA''" 1 DNA_NN5 "(0, - 5.9)" True
      "[(''.A/TT'', (1, 2)), (''AC/.G'', (10, 20))]"] k3 i2 f3
  have "calculate_dangling_end ''ACG'' ''TTGCA'' DNA_NN5
          [(''.A/TT'', (1, 2)), (''AC/.G'', (10, 20))] True
        = Inr (foldl add_thermo
                 (foldl add_thermo (0, - 5.9)
                    (map (\<lambda>dk. get_default [(''.A/TT'', (1, 2)), (''AC/.G'', (10, 20))] dk (0, 0))
                       (de_keys 1 ''ACG'' ''TTGCA'')))
                 (map (get_either DNA_NN5) (core_keys 1 ''ACG'' ''TTGCA'')))"
    by blast
  then have r3: "calculate_dangling_end ''ACG'' ''TTGCA'' DNA_NN5
       [(''.A/TT'', (1, 2)), (''AC/.G'', (10, 20))] True = Inr (- 7.7, - 32.4)"
    by (simp add: d3 c3 tm)
  have k4: "determine_shift ''ACGT'' ''TTTGCA'' = Inr 2" by (simp add: sh)
  have c4: "core_keys 2 ''ACGT'' ''TTTGCA'' = [''.A/TT'', ''AC/TG'', ''CG/GC'', ''GT/CA'']"
    by (simp add: eval_core_defs)
  have m4: "\<not> has_key DNA_NN5 ''.A/TT''" "\<not> has_key DNA_NN5 (rev ''.A/TT'')"
    by (simp_all add: has_key_def DNA_NN5_def)
  have n4: "0 < length (core_keys 2 ''ACGT'' ''TTTGCA'')"
    and z4: "core_keys 2 ''ACGT'' ''TTTGCA'' ! 0 = ''.A/TT''"
    by (simp_all add: c4)
  from dangling_end_keys_direct_only [of "''ACGT''" "''TTTGCA''" 2 DNA_NN5 "(0, - 7.3)" _ _ 0]
    k4 i1 n4 m4
  have t4: "calculate_dangling_end ''ACGT'' ''TTTGCA'' DNA_NN5 [] True
     = Inl (ValueError (MissingData ''.A/TT''))"
    by (simp add: z4)
  from dangling_end_keys_direct_only [of "''ACGT''" "''TTTGCA''" 2 DNA_NN5 "(0, - 7.3)" False "[]"]
    k4 i1
  have "calculate_dangling_end ''ACGT'' ''TTTGCA'' DNA_NN5 [] False
        = Inr (foldl add_thermo
                 (foldl add_thermo (0, - 7.3)
                    (map (\<lambda>dk. get_default [] dk (0, 0)) (de_keys 2 ''ACGT'' ''TTTGCA'')))
                 (map (get_either DNA_NN5) (core_keys 2 ''ACGT'' ''TTTGCA'')))"
    by blast
  then have f4: "calculate_dangling_end ''ACGT'' ''TTTGCA'' DNA_NN5 [] False = Inr (- 27.3, - 78.8)"
    by (simp add: c4 tm eval_core_defs)
  from k1 i1 d1 c1 r1 nk' e1 v1 k2 i2 d2 c2 r2 v2 k3 d3 c3 r3 k4 c4 m4 t4 f4
  show ?thesis by blast
qed

end
